theory Spec2Isabelle
  imports Main
begin

section \<open>Go values, kinds and panics\<close>

text \<open>
  The codec works on Go values through the \<^verbatim>\<open>reflect\<close> package. A value is modelled as
  a tree that carries the static type information the code inspects: a nil pointer,
  slice or map keeps its type. Strings are byte sequences, as in Go. Floating point
  numbers are kept abstract (type variable \<open>'f\<close>); the three operations of the standard
  library on them that the code calls are passed in as a record.
\<close>

datatype kind =
    KInvalid | KBool | KInt | KUint | KFloat | KString | KStruct
  | KMap | KSlice | KArray | KPtr | KInterface | KChan

datatype gtype =
    TBool | TInt | TUint | TUint8 | TFloat | TString
  | TPtr gtype | TSlice gtype | TArray gtype | TMap gtype gtype
  | TIface | TStruct string "(string \<times> string \<times> bool \<times> gtype) list" | TChan

text \<open>
  A struct field: declared name, the tag under the codec's tag name (empty when there is
  none), whether the field is exported (\<^verbatim>\<open>PkgPath == ""\<close>), and the value (in a
  type: the field's type). \<open>GNil\<close> is the untyped nil, whose \<^verbatim>\<open>reflect.Value\<close> is the
  invalid zero Value. \<open>GBytes\<close> is a \<^verbatim>\<open>[]byte\<close>, \<open>GSlice\<close> a slice of another
  element type. A value stored in a slot of type \<^verbatim>\<open>interface{}\<close> is wrapped in \<open>GIface\<close>.
\<close>

datatype 'f gval =
    GNil
  | GBool bool
  | GInt int
  | GUint nat
  | GFloat 'f
  | GString string
  | GBytes "string option"
  | GPtr gtype "'f gval option"
  | GIface "'f gval option"
  | GSlice gtype "'f gval list option"
  | GArray gtype "'f gval list"
  | GMap gtype gtype "('f gval \<times> 'f gval) list option"
  | GStruct string "(string \<times> string \<times> bool \<times> 'f gval) list"
  | GChan

text \<open>\<^verbatim>\<open>reflect.Value.Kind()\<close>; the zero Value (of an untyped nil) has kind Invalid.\<close>

fun kind_of :: "'f gval \<Rightarrow> kind" where
  "kind_of GNil = KInvalid"
| "kind_of (GBool _) = KBool"
| "kind_of (GInt _) = KInt"
| "kind_of (GUint _) = KUint"
| "kind_of (GFloat _) = KFloat"
| "kind_of (GString _) = KString"
| "kind_of (GBytes _) = KSlice"
| "kind_of (GPtr _ _) = KPtr"
| "kind_of (GIface _) = KInterface"
| "kind_of (GSlice _ _) = KSlice"
| "kind_of (GArray _ _) = KArray"
| "kind_of (GMap _ _ _) = KMap"
| "kind_of (GStruct _ _) = KStruct"
| "kind_of GChan = KChan"

fun kind_name :: "kind \<Rightarrow> string" where
  "kind_name KInvalid = ''invalid''"
| "kind_name KBool = ''bool''"
| "kind_name KInt = ''int''"
| "kind_name KUint = ''uint''"
| "kind_name KFloat = ''float64''"
| "kind_name KString = ''string''"
| "kind_name KStruct = ''struct''"
| "kind_name KMap = ''map''"
| "kind_name KSlice = ''slice''"
| "kind_name KArray = ''array''"
| "kind_name KPtr = ''ptr''"
| "kind_name KInterface = ''interface''"
| "kind_name KChan = ''chan''"

text \<open>
  What a panic carries. \<open>Encode\<close> and \<open>Decode\<close> recover a panic whose value is an
  \<^verbatim>\<open>error\<close> and return it; they raise again a \<^verbatim>\<open>runtime.Error\<close> and a string.
  \<open>ValueError m k\<close> is \<^verbatim>\<open>*reflect.ValueError\<close> (method \<open>m\<close> called on kind \<open>k\<close>),
  which is an \<^verbatim>\<open>error\<close> and not a \<^verbatim>\<open>runtime.Error\<close>.
\<close>

datatype goerror =
    DecodeError string
  | ValueError string kind
  | ErrorString string
  | NumError string string
  | CorruptInputError

datatype panic =
    PError goerror
  | PString string
  | PRuntime string

text \<open>
  The result of a piece of code: a value, a panic unwinding the stack, or (for the
  decoder's recursion only) the step budget of the model being used up.
\<close>

datatype 'a res = Ok 'a | Panic panic | OutOfFuel

fun bind :: "'a res \<Rightarrow> ('a \<Rightarrow> 'b res) \<Rightarrow> 'b res" where
  "bind (Ok x) f = f x"
| "bind (Panic p) f = Panic p"
| "bind OutOfFuel f = OutOfFuel"

text \<open>What a top-level entry point does: return (a nil or non-nil error), or crash.\<close>

datatype 'a outcome = Returned 'a | Failed goerror | Crashed panic | Diverged

text \<open>
  The deferred function of \<open>Encode\<close> and of \<open>Decode\<close>: a recovered
  \<^verbatim>\<open>runtime.Error\<close> or string is raised again, anything else is asserted to be an
  \<^verbatim>\<open>error\<close> and returned.
\<close>

fun recover :: "'a res \<Rightarrow> 'a outcome" where
  "recover (Ok x) = Returned x"
| "recover (Panic (PRuntime m)) = Crashed (PRuntime m)"
| "recover (Panic (PString s)) = Crashed (PString s)"
| "recover (Panic (PError e)) = Failed e"
| "recover OutOfFuel = Diverged"

text \<open>
  The floating point operations: \<^verbatim>\<open>fmt.Sprintf("%v", f)\<close>, \<^verbatim>\<open>strconv.ParseFloat(s, 64)\<close>
  (\<open>None\<close> when it returns an error), \<^verbatim>\<open>f == math.Floor(f)\<close>, and the constant \<open>0.0\<close>.
\<close>

record 'f stdlib =
  fmtFloat :: "'f \<Rightarrow> string"
  parseFloat :: "string \<Rightarrow> 'f option"
  isWhole :: "'f \<Rightarrow> bool"
  fzero :: "'f"

section \<open>Standard library: decimal formatting and base64\<close>

definition digit_char :: "nat \<Rightarrow> char" where
  "digit_char n = char_of (48 + n)"

fun show_nat :: "nat \<Rightarrow> string" where
  "show_nat n = (if n < 10 then [digit_char n] else show_nat (n div 10) @ [digit_char (n mod 10)])"

declare show_nat.simps [simp del]

definition show_int :: "int \<Rightarrow> string" where
  "show_int i = (if i < 0 then CHR ''-'' # show_nat (nat (- i)) else show_nat (nat i))"

text \<open>
  The standard alphabet of base64: \<open>A\<close> to \<open>Z\<close>, \<open>a\<close> to \<open>z\<close>, \<open>0\<close> to \<open>9\<close>,
  \<open>+\<close> and \<open>/\<close>.
\<close>

definition b64char :: "nat \<Rightarrow> char" where
  "b64char n =
     (let m = n mod 64
      in if m < 26 then char_of (65 + m)
         else if m < 52 then char_of (71 + m)
         else if m < 62 then char_of (m - 4)
         else if m = 62 then CHR ''+''
         else CHR ''/'')"

fun b64encode :: "string \<Rightarrow> string" where
  "b64encode [] = []"
| "b64encode [a] =
     (let x = (of_char a :: nat)
      in [b64char (x div 4), b64char ((x mod 4) * 16), CHR ''='', CHR ''=''])"
| "b64encode [a, b] =
     (let x = (of_char a :: nat); y = (of_char b :: nat)
      in [b64char (x div 4), b64char ((x mod 4) * 16 + y div 16),
          b64char ((y mod 16) * 4), CHR ''=''])"
| "b64encode (a # b # c # rest) =
     (let x = (of_char a :: nat); y = (of_char b :: nat); z = (of_char c :: nat)
      in [b64char (x div 4), b64char ((x mod 4) * 16 + y div 16),
          b64char ((y mod 16) * 4 + z div 64), b64char (z mod 64)] @ b64encode rest)"

section \<open>The encoder\<close>

text \<open>
  The repository holds two versions of the encoder. They differ in \<open>boolEncoder\<close>, in
  \<open>floatEncoder\<close> and in the registry of custom encoders; the functions they share are
  modelled once, with the version as a parameter: \<open>V0\<close> is the encoder that writes
  to its own buffer and has the registry, \<open>V1\<close> the encoder that writes to an
  \<^verbatim>\<open>io.Writer\<close>.
\<close>

datatype version = V0 | V1

text \<open>The functions append to the output written so far.\<close>

fun boolEncoder :: "version \<Rightarrow> string \<Rightarrow> bool \<Rightarrow> string" where
  "boolEncoder V0 out b = (out @ ''b:'') @ (if b then ''1'' else ''0'')"
| "boolEncoder V1 out b = out @ (if b then ''b:'' @ ''0'' else ''b:'' @ ''0'')"

definition intEncoder :: "string \<Rightarrow> int \<Rightarrow> string" where
  "intEncoder out i = out @ ''i:'' @ show_int i @ ''e''"

definition uintEncoder :: "string \<Rightarrow> nat \<Rightarrow> string" where
  "uintEncoder out n = out @ ''i:'' @ show_nat n @ ''e''"

fun floatEncoder :: "'f stdlib \<Rightarrow> version \<Rightarrow> string \<Rightarrow> 'f \<Rightarrow> string" where
  "floatEncoder L V0 out f =
     out @ (if isWhole L f then ''i:'' @ fmtFloat L f @ ''e'' else ''f:'' @ fmtFloat L f @ ''z'')"
| "floatEncoder L V1 out f = out @ ''f:'' @ fmtFloat L f @ ''z''"

definition stringEncoder :: "string \<Rightarrow> string \<Rightarrow> string" where
  "stringEncoder out s =
     (let b64 = b64encode s in out @ ''u'' @ show_nat (length b64) @ '':'' @ b64)"

text \<open>
  \<^verbatim>\<open>strings.ToLower(name[:1])\<close> on the first byte of a field name: an ASCII capital goes
  to lower case, another ASCII byte stays, and a byte of a multi-byte character, which
  alone is not valid UTF-8, comes back as the replacement character U+FFFD.
\<close>

definition toLower1 :: "char \<Rightarrow> string" where
  "toLower1 c =
     (let n = (of_char c :: nat)
      in if 65 \<le> n \<and> n \<le> 90 then [char_of (n + 32)]
         else if n < 128 then [c]
         else [CHR 0xEF, CHR 0xBF, CHR 0xBD])"

text \<open>The wire key of a field: its tag, or its name with the first byte in lower case.\<close>

fun wireKey :: "string \<Rightarrow> string \<Rightarrow> string" where
  "wireKey name tag =
     (if tag = [] then (case name of [] \<Rightarrow> [] | c # cs \<Rightarrow> toLower1 c @ cs) else tag)"

text \<open>
  \<open>encodeType\<close> with \<open>typeEncoder\<close> and the encoders of the composite kinds. The
  registry \<open>custom\<close> of version \<open>V0\<close> maps a kind to a registered writer; version
  \<open>V1\<close> has none. A map is given with its pairs in the order \<^verbatim>\<open>MapKeys\<close> returns them.
\<close>

type_synonym 'f registry = "kind \<Rightarrow> (string \<Rightarrow> 'f gval \<Rightarrow> string res) option"

function (sequential) encodeType :: "'f stdlib \<Rightarrow> version \<Rightarrow> 'f registry \<Rightarrow> string \<Rightarrow> 'f gval \<Rightarrow> string res"
  and structFields :: "'f stdlib \<Rightarrow> version \<Rightarrow> 'f registry \<Rightarrow> string
        \<Rightarrow> (string \<times> string \<times> bool \<times> 'f gval) list \<Rightarrow> string res"
  and mapPairs :: "'f stdlib \<Rightarrow> version \<Rightarrow> 'f registry \<Rightarrow> string
        \<Rightarrow> ('f gval \<times> 'f gval) list \<Rightarrow> string res"
  and sliceElems :: "'f stdlib \<Rightarrow> version \<Rightarrow> 'f registry \<Rightarrow> string \<Rightarrow> 'f gval list \<Rightarrow> string res"
where
  "encodeType L ver custom out (GBool b) = Ok (boolEncoder ver out b)"
| "encodeType L ver custom out (GInt i) = Ok (intEncoder out i)"
| "encodeType L ver custom out (GUint n) = Ok (uintEncoder out n)"
| "encodeType L ver custom out (GFloat f) = Ok (floatEncoder L ver out f)"
| "encodeType L ver custom out (GString s) = Ok (stringEncoder out s)"
| "encodeType L ver custom out (GStruct name flds) =
     bind (structFields L ver custom (out @ ''d:'') flds) (\<lambda>out'. Ok (out' @ ''e''))"
| "encodeType L ver custom out (GMap kt vt m) =
     (let out1 = (if m = None then out @ ''n:e'' else out)
      in bind (mapPairs L ver custom (out1 @ ''d:'') (case m of None \<Rightarrow> [] | Some kvs \<Rightarrow> kvs))
           (\<lambda>out'. Ok (out' @ ''e'')))"
| "encodeType L ver custom out (GSlice t xs) =
     (case xs of
        None \<Rightarrow> Ok (out @ ''n:e'')
      | Some elems \<Rightarrow> bind (sliceElems L ver custom (out @ ''l:'') elems) (\<lambda>out'. Ok (out' @ ''e'')))"
| "encodeType L ver custom out (GBytes bs) =
     (case bs of
        None \<Rightarrow> Ok (out @ ''n:e'')
      | Some s \<Rightarrow> Ok (stringEncoder out s))"
| "encodeType L ver custom out (GArray t xs) = Panic (PError (ValueError ''reflect.Value.IsNil'' KArray))"
| "encodeType L ver custom out (GPtr t p) =
     (case p of
        None \<Rightarrow> Ok (out @ ''n:e'')
      | Some x \<Rightarrow> encodeType L ver custom out x)"
| "encodeType L ver custom out (GIface p) =
     (case p of
        None \<Rightarrow> Ok (out @ ''n:e'')
      | Some x \<Rightarrow> encodeType L ver custom out x)"
| "encodeType L ver custom out GNil =
     (case (case ver of V0 \<Rightarrow> custom KInvalid | V1 \<Rightarrow> None) of
        Some encoder \<Rightarrow> encoder out GNil
      | None \<Rightarrow> Ok (out @ ''n:e''))"
| "encodeType L ver custom out GChan =
     (case (case ver of V0 \<Rightarrow> custom KChan | V1 \<Rightarrow> None) of
        Some encoder \<Rightarrow> encoder out GChan
      | None \<Rightarrow> Panic (PError (ErrorString (''unsupported encode type '' @ kind_name KChan))))"
| "structFields L ver custom out [] = Ok out"
| "structFields L ver custom out ((name, tag, exported, v) # flds) =
     (if \<not> exported then structFields L ver custom out flds
      else
        (let key = wireKey name tag
         in bind (encodeType L ver custom (out @ ''k'' @ show_nat (length key) @ '':'' @ key) v)
              (\<lambda>out'. structFields L ver custom out' flds)))"
| "mapPairs L ver custom out [] = Ok out"
| "mapPairs L ver custom out ((k, v) # kvs) =
     (case k of
        GString str \<Rightarrow>
          bind (encodeType L ver custom (out @ ''k'' @ show_nat (length str) @ '':'' @ str) v)
            (\<lambda>out'. mapPairs L ver custom out' kvs)
      | _ \<Rightarrow> Panic (PString ''map encoding supports only string as key''))"
| "sliceElems L ver custom out [] = Ok out"
| "sliceElems L ver custom out (x # xs) =
     bind (encodeType L ver custom out x) (\<lambda>out'. sliceElems L ver custom out' xs)"

  by pat_completeness auto

termination
  by (relation "measure (\<lambda>x. case x of
        Inl (Inl (L, ver, custom, out, v)) \<Rightarrow> size v
      | Inl (Inr (L, ver, custom, out, flds)) \<Rightarrow>
          size_list (size_prod (\<lambda>x. 0) (size_prod (\<lambda>x. 0) (size_prod (\<lambda>x. 0) size))) flds
      | Inr (Inl (L, ver, custom, out, kvs)) \<Rightarrow> size_list (size_prod size size) kvs
      | Inr (Inr (L, ver, custom, out, xs)) \<Rightarrow> size_list size xs)")
    (auto split: option.splits)

text \<open>
  \<open>Encoder.Encode\<close> writes the prefix and the value and recovers; \<open>Encode\<close> runs it
  on a fresh encoder, whose registry is empty, and returns the bytes written.
\<close>

definition Encoder_Encode :: "'f stdlib \<Rightarrow> version \<Rightarrow> 'f registry \<Rightarrow> 'f gval \<Rightarrow> string outcome" where
  "Encoder_Encode L ver custom v = recover (encodeType L ver custom ''ut:'' v)"

definition Encode :: "'f stdlib \<Rightarrow> version \<Rightarrow> 'f gval \<Rightarrow> string outcome" where
  "Encode L ver v = Encoder_Encode L ver (\<lambda>k. None) v"

section \<open>Standard library: parsing integers, decoding base64\<close>

text \<open>
  \<^verbatim>\<open>strconv.ParseInt(s, 0, 64)\<close>: an optional sign, then with base 0 a prefix
  \<open>0b\<close>, \<open>0o\<close>, \<open>0x\<close> (when a digit can follow) or a leading \<open>0\<close> for octal,
  underscores between digits, and the range of a signed 64-bit integer. \<open>None\<close> is the
  returned \<^verbatim>\<open>*strconv.NumError\<close>.
\<close>

definition lower :: "char \<Rightarrow> nat" where
  "lower c = (let n = (of_char c :: nat) in if (n div 32) mod 2 = 1 then n else n + 32)"

definition digit_val :: "char \<Rightarrow> nat option" where
  "digit_val c =
     (let n = (of_char c :: nat)
      in if 48 \<le> n \<and> n \<le> 57 then Some (n - 48)
         else if 97 \<le> lower c \<and> lower c \<le> 122 then Some (lower c - 97 + 10)
         else None)"

fun parse_digits :: "bool \<Rightarrow> nat \<Rightarrow> int \<Rightarrow> string \<Rightarrow> int option" where
  "parse_digits base0 base n [] = Some n"
| "parse_digits base0 base n (c # cs) =
     (if c = CHR ''_'' \<and> base0 then parse_digits base0 base n cs
      else (case digit_val c of
              None \<Rightarrow> None
            | Some d \<Rightarrow> if d \<ge> base then None else parse_digits base0 base (n * int base + int d) cs))"

text \<open>
  \<open>underscoreOK\<close>: underscores must separate digits (a base prefix counts as a digit).
  \<open>last\<close> is the class of the last byte seen: \<open>0\<close> a digit, \<open>1\<close> an underscore,
  \<open>2\<close> anything else, \<open>3\<close> the beginning.
\<close>

fun underscore_scan :: "bool \<Rightarrow> nat \<Rightarrow> string \<Rightarrow> bool" where
  "underscore_scan hex lst [] = (lst \<noteq> 1)"
| "underscore_scan hex lst (c # cs) =
     (let n = (of_char c :: nat)
      in if (48 \<le> n \<and> n \<le> 57) \<or> (hex \<and> 97 \<le> lower c \<and> lower c \<le> 102)
         then underscore_scan hex 0 cs
         else if c = CHR ''_'' then (if lst \<noteq> 0 then False else underscore_scan hex 1 cs)
         else if lst = 1 then False
         else underscore_scan hex 2 cs)"

definition underscoreOK :: "string \<Rightarrow> bool" where
  "underscoreOK s0 =
     (let s = (case s0 of c # cs \<Rightarrow> if c = CHR ''-'' \<or> c = CHR ''+'' then cs else s0 | [] \<Rightarrow> s0)
      in (case s of
            a # b # rest \<Rightarrow>
              if a = CHR ''0'' \<and> (lower b = 98 \<or> lower b = 111 \<or> lower b = 120)
              then underscore_scan (lower b = 120) 0 rest
              else underscore_scan False 3 s
          | _ \<Rightarrow> underscore_scan False 3 s))"

definition ParseUint0 :: "string \<Rightarrow> int option" where
  "ParseUint0 s =
     (if s = [] then None
      else
        (let (base, digits) =
           (if hd s = CHR ''0'' then
              (if length s \<ge> 3 \<and> lower (s ! 1) = 98 then (2, drop 2 s)
               else if length s \<ge> 3 \<and> lower (s ! 1) = 111 then (8, drop 2 s)
               else if length s \<ge> 3 \<and> lower (s ! 1) = 120 then (16, drop 2 s)
               else (8, drop 1 s))
            else (10::nat, s))
         in (case parse_digits True base 0 digits of
               None \<Rightarrow> None
             | Some n \<Rightarrow>
                 if n \<ge> 2 ^ 64 then None
                 else if CHR ''_'' \<in> set digits \<and> \<not> underscoreOK s then None
                 else Some n)))"

definition ParseInt0 :: "string \<Rightarrow> int option" where
  "ParseInt0 s =
     (if s = [] then None
      else
        (let neg = (hd s = CHR ''-'');
             s1 = (if hd s = CHR ''+'' \<or> hd s = CHR ''-'' then tl s else s)
         in (case ParseUint0 s1 of
               None \<Rightarrow> None
             | Some un \<Rightarrow>
                 if \<not> neg \<and> un \<ge> 2 ^ 63 then None
                 else if neg \<and> un > 2 ^ 63 then None
                 else Some (if neg then - un else un))))"

text \<open>
  \<^verbatim>\<open>base64.StdEncoding.DecodeString\<close>: carriage returns and line feeds are skipped, the
  rest is read four characters at a time, and padding may only end the input. \<open>None\<close>
  is the returned \<^verbatim>\<open>CorruptInputError\<close>.
\<close>

definition b64val :: "char \<Rightarrow> nat option" where
  "b64val c =
     (let n = (of_char c :: nat)
      in if 65 \<le> n \<and> n \<le> 90 then Some (n - 65)
         else if 97 \<le> n \<and> n \<le> 122 then Some (n - 71)
         else if 48 \<le> n \<and> n \<le> 57 then Some (n + 4)
         else if c = CHR ''+'' then Some 62
         else if c = CHR ''/'' then Some 63
         else None)"

fun b64quanta :: "string \<Rightarrow> string option" where
  "b64quanta [] = Some []"
| "b64quanta (a # b # c # d # rest) =
     (case (b64val a, b64val b) of
        (Some x, Some y) \<Rightarrow>
          (let b1 = char_of (x * 4 + y div 16)
           in if c = CHR ''='' then (if d = CHR ''='' \<and> rest = [] then Some [b1] else None)
              else (case b64val c of
                      None \<Rightarrow> None
                    | Some z \<Rightarrow>
                        (let b2 = char_of ((y mod 16) * 16 + z div 4)
                         in if d = CHR ''='' then (if rest = [] then Some [b1, b2] else None)
                            else (case b64val d of
                                    None \<Rightarrow> None
                                  | Some w \<Rightarrow>
                                      (case b64quanta rest of
                                         None \<Rightarrow> None
                                       | Some bs \<Rightarrow> Some (b1 # b2 # char_of ((z mod 4) * 64 + w) # bs))))))
      | _ \<Rightarrow> None)"
| "b64quanta _ = None"

definition b64decode :: "string \<Rightarrow> string option" where
  "b64decode s = b64quanta (filter (\<lambda>c. c \<noteq> CHR 0x0D \<and> c \<noteq> CHR 0x0A) s)"

section \<open>The reflect operations the decoder uses\<close>

text \<open>
  A \<^verbatim>\<open>reflect.Value\<close> is a value of the tree together with the flag that says whether
  it is addressable (so that it can be set). A pointer owns its pointee: the destinations
  are trees without sharing, and a function that writes through a pointer returns the
  pointer with the new pointee. The method names inside \<open>ValueError\<close> and the texts
  of the panics are for the reader; only the kind of panic decides what \<open>Decode\<close> does.
\<close>

fun type_of :: "'f gval \<Rightarrow> gtype"
  and field_types :: "(string \<times> string \<times> bool \<times> 'f gval) list
        \<Rightarrow> (string \<times> string \<times> bool \<times> gtype) list" where
  "type_of GNil = TIface"
| "type_of (GBool _) = TBool"
| "type_of (GInt _) = TInt"
| "type_of (GUint _) = TUint"
| "type_of (GFloat _) = TFloat"
| "type_of (GString _) = TString"
| "type_of (GBytes _) = TSlice TUint8"
| "type_of (GPtr t _) = TPtr t"
| "type_of (GIface _) = TIface"
| "type_of (GSlice t _) = TSlice t"
| "type_of (GArray t _) = TArray t"
| "type_of (GMap kt vt _) = TMap kt vt"
| "type_of (GStruct name flds) = TStruct name (field_types flds)"
| "type_of GChan = TChan"
| "field_types [] = []"
| "field_types ((name, tag, exported, v) # flds) = (name, tag, exported, type_of v) # field_types flds"

text \<open>\<^verbatim>\<open>reflect.Zero\<close>: the zero value of a type.\<close>

fun zero :: "'f stdlib \<Rightarrow> gtype \<Rightarrow> 'f gval"
  and zero_fields :: "'f stdlib \<Rightarrow> (string \<times> string \<times> bool \<times> gtype) list
        \<Rightarrow> (string \<times> string \<times> bool \<times> 'f gval) list" where
  "zero L TBool = GBool False"
| "zero L TInt = GInt 0"
| "zero L TUint = GUint 0"
| "zero L TUint8 = GUint 0"
| "zero L TFloat = GFloat (fzero L)"
| "zero L TString = GString []"
| "zero L (TPtr t) = GPtr t None"
| "zero L (TSlice t) = (if t = TUint8 then GBytes None else GSlice t None)"
| "zero L (TArray t) = GArray t []"
| "zero L (TMap kt vt) = GMap kt vt None"
| "zero L TIface = GIface None"
| "zero L (TStruct name fts) = GStruct name (zero_fields L fts)"
| "zero L TChan = GChan"
| "zero_fields L [] = []"
| "zero_fields L ((name, tag, exported, t) # fts) = (name, tag, exported, zero L t) # zero_fields L fts"

text \<open>
  \<^verbatim>\<open>Value.IsNil\<close> panics on the zero Value and on a kind that has no nil.
\<close>

fun IsNil :: "'f gval \<Rightarrow> bool res" where
  "IsNil (GPtr t p) = Ok (p = None)"
| "IsNil (GIface p) = Ok (p = None)"
| "IsNil (GSlice t xs) = Ok (xs = None)"
| "IsNil (GBytes bs) = Ok (bs = None)"
| "IsNil (GMap kt vt m) = Ok (m = None)"
| "IsNil GChan = Ok False"
| "IsNil v = Panic (PError (ValueError ''reflect.Value.IsNil'' (kind_of v)))"

text \<open>
  \<^verbatim>\<open>Value.Elem\<close>: the pointee of a pointer (addressable) or the value inside an interface
  (not addressable); the zero Value for a nil one; a panic on any other kind.
\<close>

fun Elem :: "'f gval \<Rightarrow> ('f gval \<times> bool) res" where
  "Elem (GPtr t p) = Ok (case p of None \<Rightarrow> (GNil, False) | Some x \<Rightarrow> (x, True))"
| "Elem (GIface p) = Ok (case p of None \<Rightarrow> (GNil, False) | Some x \<Rightarrow> (x, False))"
| "Elem v = Panic (PError (ValueError ''reflect.Value.Elem'' (kind_of v)))"

text \<open>The pointer or interface \<open>v\<close> after its pointee has become \<open>x\<close>.\<close>

fun with_elem :: "'f gval \<Rightarrow> 'f gval \<Rightarrow> 'f gval" where
  "with_elem (GPtr t p) x = GPtr t (Some x)"
| "with_elem (GIface p) x = GIface (Some x)"
| "with_elem v x = v"

text \<open>
  \<open>mustBeAssignable\<close>, the first check of every setter: the zero Value gives a
  \<open>ValueError\<close>, a value that is not addressable a panic with a string. The setters
  then check the kind. The signed integers are the one kind \<open>KInt\<close>, of 64 bits:
  the narrower integer types, for which \<^verbatim>\<open>SetInt\<close> keeps the low bits only, are not
  modelled.
\<close>

definition mustBeAssignable :: "string \<Rightarrow> 'f gval \<times> bool \<Rightarrow> unit res" where
  "mustBeAssignable m x =
     (if fst x = GNil then Panic (PError (ValueError m KInvalid))
      else if \<not> snd x then Panic (PString (''reflect: '' @ m @ '' using unaddressable value''))
      else Ok ())"

definition SetBool :: "'f gval \<times> bool \<Rightarrow> bool \<Rightarrow> 'f gval res" where
  "SetBool x b =
     bind (mustBeAssignable ''reflect.Value.SetBool'' x) (\<lambda>_.
       if kind_of (fst x) = KBool then Ok (GBool b)
       else Panic (PError (ValueError ''reflect.Value.SetBool'' (kind_of (fst x)))))"

definition SetInt :: "'f gval \<times> bool \<Rightarrow> int \<Rightarrow> 'f gval res" where
  "SetInt x i =
     bind (mustBeAssignable ''reflect.Value.SetInt'' x) (\<lambda>_.
       if kind_of (fst x) = KInt then Ok (GInt i)
       else Panic (PError (ValueError ''reflect.Value.SetInt'' (kind_of (fst x)))))"

definition SetFloat :: "'f gval \<times> bool \<Rightarrow> 'f \<Rightarrow> 'f gval res" where
  "SetFloat x f =
     bind (mustBeAssignable ''reflect.Value.SetFloat'' x) (\<lambda>_.
       if kind_of (fst x) = KFloat then Ok (GFloat f)
       else Panic (PError (ValueError ''reflect.Value.SetFloat'' (kind_of (fst x)))))"

definition SetString :: "'f gval \<times> bool \<Rightarrow> string \<Rightarrow> 'f gval res" where
  "SetString x s =
     bind (mustBeAssignable ''reflect.Value.SetString'' x) (\<lambda>_.
       if kind_of (fst x) = KString then Ok (GString s)
       else Panic (PError (ValueError ''reflect.Value.SetString'' (kind_of (fst x)))))"

text \<open>
  \<^verbatim>\<open>Value.Set\<close>: the target must be assignable and the type of the new value
  assignable to the target's type (the same type, or the target is an
  \<^verbatim>\<open>interface{}\<close>); otherwise it panics with a string.
\<close>

definition into_type :: "gtype \<Rightarrow> 'f gval \<Rightarrow> 'f gval" where
  "into_type t x = (if t = TIface \<and> kind_of x \<noteq> KInterface then GIface (Some x) else x)"

definition Set :: "'f gval \<times> bool \<Rightarrow> 'f gval \<Rightarrow> 'f gval res" where
  "Set target x =
     bind (mustBeAssignable ''reflect.Value.Set'' target) (\<lambda>_.
       if x = GNil then Panic (PError (ValueError ''reflect.Value.Set'' KInvalid))
       else if type_of x = type_of (fst target) \<or> type_of (fst target) = TIface
       then Ok (into_type (type_of (fst target)) x)
       else Panic (PString ''reflect.Set: value is not assignable to type''))"

text \<open>
  \<^verbatim>\<open>Value.Len\<close>, \<^verbatim>\<open>Value.Index\<close> and \<^verbatim>\<open>reflect.Append\<close>. On a kind that has no
  length \<^verbatim>\<open>Len\<close> panics with a \<^verbatim>\<open>*reflect.ValueError\<close>, as the releases of Go up to
  1.19 do for every such kind; the later ones panic with a string on a pointer to a value
  that is not an array.
\<close>

fun Len :: "'f gval \<Rightarrow> nat res" where
  "Len (GSlice t xs) = Ok (case xs of None \<Rightarrow> 0 | Some es \<Rightarrow> length es)"
| "Len (GBytes bs) = Ok (case bs of None \<Rightarrow> 0 | Some s \<Rightarrow> length s)"
| "Len (GArray t es) = Ok (length es)"
| "Len (GMap kt vt m) = Ok (case m of None \<Rightarrow> 0 | Some kvs \<Rightarrow> length kvs)"
| "Len (GString s) = Ok (length s)"
| "Len GChan = Ok 0"
| "Len v = Panic (PError (ValueError ''reflect.Value.Len'' (kind_of v)))"

fun Index :: "'f gval \<Rightarrow> nat \<Rightarrow> 'f gval res" where
  "Index (GSlice t xs) i =
     (case xs of
        None \<Rightarrow> Panic (PString ''reflect: slice index out of range'')
      | Some es \<Rightarrow> if i < length es then Ok (es ! i) else Panic (PString ''reflect: slice index out of range''))"
| "Index (GBytes bs) i =
     (case bs of
        None \<Rightarrow> Panic (PString ''reflect: slice index out of range'')
      | Some s \<Rightarrow> if i < length s then Ok (GUint (of_char (s ! i)))
                  else Panic (PString ''reflect: slice index out of range''))"
| "Index v i = Panic (PError (ValueError ''reflect.Value.Index'' (kind_of v)))"

text \<open>The element type of a slice, for the pointer that \<^verbatim>\<open>Index(i).Addr()\<close> gives.\<close>

fun elem_type :: "'f gval \<Rightarrow> gtype" where
  "elem_type (GSlice t xs) = t"
| "elem_type (GBytes bs) = TUint8"
| "elem_type v = TIface"

text \<open>The slice \<open>v\<close> after its element \<open>i\<close> has become \<open>e\<close>.\<close>

fun with_index :: "'f gval \<Rightarrow> nat \<Rightarrow> 'f gval \<Rightarrow> 'f gval" where
  "with_index (GSlice t (Some es)) i e = GSlice t (Some (es[i := e]))"
| "with_index (GBytes (Some s)) i e =
     (case e of GUint n \<Rightarrow> GBytes (Some (s[i := char_of n])) | _ \<Rightarrow> GBytes (Some s))"
| "with_index v i e = v"

fun Append :: "'f gval \<Rightarrow> 'f gval \<Rightarrow> 'f gval res" where
  "Append (GSlice t xs) e =
     (if e = GNil then Panic (PError (ValueError ''reflect.Value.Set'' KInvalid))
      else if type_of e = t \<or> t = TIface
      then Ok (GSlice t (Some ((case xs of None \<Rightarrow> [] | Some es \<Rightarrow> es) @ [into_type t e])))
      else Panic (PString ''reflect.Set: value is not assignable to type''))"
| "Append (GBytes bs) e =
     (if e = GNil then Panic (PError (ValueError ''reflect.Value.Set'' KInvalid))
      else Panic (PString ''reflect.Set: value is not assignable to type''))"
| "Append v e = Panic (PError (ValueError ''reflect.Append'' (kind_of v)))"

section \<open>The decoder\<close>

text \<open>
  The decoder is a buffer \<open>data\<close>, which never changes, and the offset \<open>off\<close> of
  the next byte. A read past the end of the buffer is a run-time panic of Go (index or
  slice bounds out of range). The buffer is taken to have no capacity beyond its length,
  as the \<^verbatim>\<open>[]byte\<close> of a literal or of a conversion from a string has: a slice
  expression can then not reach past the length.
\<close>

definition peek :: "string \<Rightarrow> nat \<Rightarrow> char res" where
  "peek data off =
     (if off < length data then Ok (data ! off) else Panic (PRuntime ''index out of range''))"

definition read :: "string \<Rightarrow> nat \<Rightarrow> int \<Rightarrow> (string \<times> nat) res" where
  "read data off n =
     (if n < 0 \<or> int off + n > int (length data) then Panic (PRuntime ''slice bounds out of range'')
      else Ok (take (nat n) (drop off data), off + nat n))"

text \<open>
  \<open>readUntil\<close>: \<open>count\<close> is the distance to the first \<open>ch\<close> at or after the
  offset, and stays 0 when there is none; a count of 0 is reported as not found.
\<close>

definition readUntil :: "string \<Rightarrow> nat \<Rightarrow> char \<Rightarrow> (string \<times> nat) option" where
  "readUntil data off ch =
     (let rest = drop off data;
          count = (if ch \<in> set rest then length (takeWhile (\<lambda>c. c \<noteq> ch) rest) else 0)
      in if count = 0 then None else Some (take count rest, off + count))"

text \<open>
  Modelled from the spec: \<open>readAndMatch\<close> is called by \<open>Decode\<close> and is not in the
  sources. The spec says that the buffer must begin with the literal prefix \<open>ut:\<close>,
  that its absence is a decode error, and that no read goes past the end of the buffer
  without failing: \<open>readAndMatch n s\<close> holds when the next \<open>n\<close> bytes exist and are
  \<open>s\<close>, and then moves the offset past them.
\<close>

definition readAndMatch :: "string \<Rightarrow> nat \<Rightarrow> nat \<Rightarrow> string \<Rightarrow> bool \<times> nat" where
  "readAndMatch data off n s =
     (if off + n \<le> length data \<and> take n (drop off data) = s then (True, off + n) else (False, off))"

definition parseInt :: "string \<Rightarrow> int res" where
  "parseInt str =
     (case ParseInt0 str of
        None \<Rightarrow> Panic (PError (NumError ''ParseInt'' str))
      | Some i \<Rightarrow> Ok i)"

text \<open>
  The decoders of the scalar tags. Each returns the destination \<open>v\<close> as it is after
  the call, and the new offset.
\<close>

type_synonym 'f ret = "('f gval \<times> nat) res"

definition nilDecoder :: "string \<Rightarrow> string \<Rightarrow> 'f gval \<Rightarrow> nat \<Rightarrow> 'f ret" where
  "nilDecoder data key v off = bind (read data off 1) (\<lambda>(s, off'). Ok (v, off'))"

definition boolDecoder :: "string \<Rightarrow> string \<Rightarrow> 'f gval \<Rightarrow> nat \<Rightarrow> 'f ret" where
  "boolDecoder data key v off =
     bind (Elem v) (\<lambda>x.
     bind (peek data off) (\<lambda>c.
     bind (SetBool x (\<not> (c = CHR ''0''))) (\<lambda>x'.
     bind (read data off 1) (\<lambda>(s, off'). Ok (with_elem v x', off')))))"

definition intDecoder :: "string \<Rightarrow> string \<Rightarrow> 'f gval \<Rightarrow> nat \<Rightarrow> 'f ret" where
  "intDecoder data key v off =
     (case readUntil data off (CHR ''e'') of
        None \<Rightarrow> Panic (PError (DecodeError ''could not find int end''))
      | Some (str, off1) \<Rightarrow>
          bind (Elem v) (\<lambda>x.
          bind (parseInt str) (\<lambda>i.
          bind (SetInt x i) (\<lambda>x'.
          bind (read data off1 1) (\<lambda>(s, off'). Ok (with_elem v x', off'))))))"

definition floatDecoder :: "'f stdlib \<Rightarrow> string \<Rightarrow> string \<Rightarrow> 'f gval \<Rightarrow> nat \<Rightarrow> 'f ret" where
  "floatDecoder L data key v off =
     (case readUntil data off (CHR ''z'') of
        None \<Rightarrow> Panic (PError (DecodeError ''could not find float end''))
      | Some (str, off1) \<Rightarrow>
          (case parseFloat L str of
             None \<Rightarrow> Panic (PError (NumError ''ParseFloat'' str))
           | Some f \<Rightarrow>
               bind (Elem v) (\<lambda>x.
               bind (SetFloat x f) (\<lambda>x'.
               bind (read data off1 1) (\<lambda>(s, off'). Ok (with_elem v x', off'))))))"

definition stringDecoder :: "string \<Rightarrow> string \<Rightarrow> 'f gval \<Rightarrow> nat \<Rightarrow> 'f ret" where
  "stringDecoder data key v off =
     bind (parseInt (drop 1 key)) (\<lambda>len.
     bind (Elem v) (\<lambda>x.
     bind (read data off len) (\<lambda>(s, off').
     bind (SetString x s) (\<lambda>x'. Ok (with_elem v x', off')))))"

definition unicodeDecoder :: "string \<Rightarrow> string \<Rightarrow> 'f gval \<Rightarrow> nat \<Rightarrow> 'f ret" where
  "unicodeDecoder data key v off =
     bind (parseInt (drop 1 key)) (\<lambda>len.
     bind (read data off len) (\<lambda>(s, off').
       (case b64decode s of
          None \<Rightarrow> Panic (PError CorruptInputError)
        | Some bytes \<Rightarrow>
            bind (Elem v) (\<lambda>x.
            bind (SetString x bytes) (\<lambda>x'. Ok (with_elem v x', off'))))))"

definition customDecoder :: "string \<Rightarrow> string \<Rightarrow> 'f gval \<Rightarrow> nat \<Rightarrow> 'f ret" where
  "customDecoder data key v off = Ok (v, off)"

text \<open>
  \<open>dictKey\<close>: \<open>None\<close> is the result \<^verbatim>\<open>("", false)\<close>. When the token before the colon
  does not begin with \<open>k\<close>, the token has been read already: the offset has moved.
\<close>

definition dictKey :: "string \<Rightarrow> nat \<Rightarrow> (string option \<times> nat) res" where
  "dictKey data off =
     (case readUntil data off (CHR '':'') of
        None \<Rightarrow> Ok (None, off)
      | Some (key, off1) \<Rightarrow>
          if hd key \<noteq> CHR ''k'' then Ok (None, off1)
          else
            bind (read data off1 1) (\<lambda>(s, off2).
            bind (parseInt (drop 1 key)) (\<lambda>len.
            bind (read data off2 len) (\<lambda>(name, off3). Ok (Some name, off3)))))"

text \<open>
  The functions that call each other (\<open>decodeType\<close>, \<open>decodeTypeAndCreate\<close>, the
  decoders of dictionaries and lists and their loops) are written with the callee as a
  parameter \<open>call\<close>, which takes the name of the function with its arguments and the
  offset. \<open>exec\<close> below ties them together.
\<close>

datatype 'f call =
    CDecodeType "'f gval"
  | CDecodeTypeAndCreate
  | CDictDecoder bool "'f gval"
  | CFillMap "('f gval \<times> 'f gval) list"
  | CFillStruct bool "'f gval"
  | CFillSlice "'f gval" nat nat

text \<open>\<^verbatim>\<open>out[key] = x\<close> on a map kept as a list of pairs.\<close>

fun map_put :: "('f gval \<times> 'f gval) list \<Rightarrow> string \<Rightarrow> 'f gval \<Rightarrow> ('f gval \<times> 'f gval) list" where
  "map_put [] key x = [(GString key, x)]"
| "map_put ((k, y) # kvs) key x =
     (if k = GString key then (k, x) # kvs else (k, y) # map_put kvs key x)"

text \<open>One turn of the loop of \<open>fillMap\<close>; the result is the map.\<close>

definition fillMap :: "('f call \<Rightarrow> nat \<Rightarrow> 'f ret) \<Rightarrow> string
    \<Rightarrow> ('f gval \<times> 'f gval) list \<Rightarrow> nat \<Rightarrow> 'f ret" where
  "fillMap call data out off =
     bind (peek data off) (\<lambda>c.
       if c = CHR ''e'' then Ok (GMap TString TIface (Some out), off)
       else
         bind (dictKey data off) (\<lambda>(k, off1).
           (case k of
              None \<Rightarrow> Ok (GMap TString TIface (Some out), off1)
            | Some key \<Rightarrow>
                bind (call CDecodeTypeAndCreate off1) (\<lambda>(val, off2).
                  if val \<noteq> GNil
                  then bind (Elem val) (\<lambda>x. call (CFillMap (map_put out key (GIface (Some (fst x))))) off2)
                  else call (CFillMap (map_put out key (GIface None))) off2))))"

text \<open>
  \<open>structFieldsMap\<close>: the exported fields by wire key, a later field replacing an
  earlier one with the same key. The field is given by its declared name.
\<close>

definition structFieldsMap :: "(string \<times> string \<times> bool \<times> 'f gval) list \<Rightarrow> string \<Rightarrow> string option" where
  "structFieldsMap flds key =
     (case filter (\<lambda>(name, tag, exported, v). exported \<and> wireKey name tag = key) flds of
        [] \<Rightarrow> None
      | fs \<Rightarrow> Some (fst (last fs)))"

fun FieldByName :: "(string \<times> string \<times> bool \<times> 'f gval) list \<Rightarrow> string \<Rightarrow> 'f gval" where
  "FieldByName [] fname = GNil"
| "FieldByName ((name, tag, exported, v) # flds) fname =
     (if name = fname then v else FieldByName flds fname)"

fun with_field :: "(string \<times> string \<times> bool \<times> 'f gval) list \<Rightarrow> string \<Rightarrow> 'f gval
    \<Rightarrow> (string \<times> string \<times> bool \<times> 'f gval) list" where
  "with_field [] fname x = []"
| "with_field ((name, tag, exported, v) # flds) fname x =
     (if name = fname then (name, tag, exported, x) # flds
      else (name, tag, exported, v) # with_field flds fname x)"

text \<open>
  \<open>setStructField\<close> on the struct with fields \<open>flds\<close>, which is addressable when
  \<open>addr\<close> holds; the result is the new list of fields.
\<close>

definition setStructField :: "('f call \<Rightarrow> nat \<Rightarrow> 'f ret) \<Rightarrow> 'f stdlib \<Rightarrow> bool \<Rightarrow> string
    \<Rightarrow> (string \<times> string \<times> bool \<times> 'f gval) list \<Rightarrow> nat
    \<Rightarrow> ((string \<times> string \<times> bool \<times> 'f gval) list \<times> nat) res" where
  "setStructField call L addr fname flds off =
     (let fv = FieldByName flds fname
      in (case fv of
            GPtr t p \<Rightarrow>
              bind (call (CDecodeType (GPtr t (Some (zero L t)))) off) (\<lambda>(new, off1).
              bind (Set (fv, addr) new) (\<lambda>fv'. Ok (with_field flds fname fv', off1)))
          | GIface p \<Rightarrow>
              bind (call CDecodeTypeAndCreate off) (\<lambda>(val, off1).
              bind (Elem val) (\<lambda>x.
              bind (Set (fv, addr) (fst x)) (\<lambda>fv'. Ok (with_field flds fname fv', off1))))
          | _ \<Rightarrow>
              if \<not> addr then Panic (PString ''reflect.Value.Addr of unaddressable value'')
              else
                bind (call (CDecodeType (GPtr (type_of fv) (Some fv))) off) (\<lambda>(p, off1).
                bind (Elem p) (\<lambda>x. Ok (with_field flds fname (fst x), off1)))))"

text \<open>One turn of the loop of \<open>fillStruct\<close>; the result is the struct.\<close>

definition fillStruct :: "('f call \<Rightarrow> nat \<Rightarrow> 'f ret) \<Rightarrow> 'f stdlib \<Rightarrow> string \<Rightarrow> bool
    \<Rightarrow> 'f gval \<Rightarrow> nat \<Rightarrow> 'f ret" where
  "fillStruct call L data addr v off =
     (case v of
        GStruct sname flds \<Rightarrow>
          bind (peek data off) (\<lambda>c.
            if c = CHR ''e'' then Ok (v, off)
            else
              bind (dictKey data off) (\<lambda>(k, off1).
                (case k of
                   None \<Rightarrow> Ok (v, off1)
                 | Some key \<Rightarrow>
                     (case structFieldsMap flds key of
                        None \<Rightarrow> call (CFillStruct addr v) off1
                      | Some fname \<Rightarrow>
                          bind (setStructField call L addr fname flds off1) (\<lambda>(flds', off2).
                            call (CFillStruct addr (GStruct sname flds')) off2)))))
      | _ \<Rightarrow> Panic (PString ''reflect: NumField of non-struct type''))"


text \<open>
  One turn of the loop of \<open>fillSlice\<close>, with the length \<open>len\<close> taken before the loop
  and the index \<open>i\<close>; \<open>v\<close> is the pointer to the slice. \<open>fillSlice\<close> takes the
  length and enters the loop.
\<close>

definition fillSliceLoop :: "('f call \<Rightarrow> nat \<Rightarrow> 'f ret) \<Rightarrow> string \<Rightarrow> 'f gval \<Rightarrow> nat \<Rightarrow> nat
    \<Rightarrow> nat \<Rightarrow> 'f ret" where
  "fillSliceLoop call data v len i off =
     bind (peek data off) (\<lambda>c.
       if c = CHR ''e'' then Ok (v, off)
       else if i \<ge> len then
         bind (call CDecodeTypeAndCreate off) (\<lambda>(val, off1).
         bind (Elem val) (\<lambda>e.
         bind (Elem v) (\<lambda>x.
         bind (Append (fst x) (fst e)) (\<lambda>x'.
         bind (Set x x') (\<lambda>x''. call (CFillSlice (with_elem v x'') len (i + 1)) off1)))))
       else
         bind (Elem v) (\<lambda>x.
         bind (Index (fst x) i) (\<lambda>e.
         bind (call (CDecodeType (GPtr (elem_type (fst x)) (Some e))) off) (\<lambda>(p, off1).
         bind (Elem p) (\<lambda>e'.
           call (CFillSlice (with_elem v (with_index (fst x) i (fst e'))) len (i + 1)) off1)))))"

definition fillSlice :: "('f call \<Rightarrow> nat \<Rightarrow> 'f ret) \<Rightarrow> string \<Rightarrow> 'f gval \<Rightarrow> nat \<Rightarrow> 'f ret" where
  "fillSlice call data v off =
     bind (Elem v) (\<lambda>x.
     bind (Len (fst x)) (\<lambda>len. fillSliceLoop call data v len 0 off))"

text \<open>
  \<open>fillStructSlice\<close> begins with \<^verbatim>\<open>v.Len()\<close> on the pointer it is given, not on the
  slice: \<^verbatim>\<open>Len\<close> panics on a pointer.
\<close>

definition fillStructSlice :: "('f call \<Rightarrow> nat \<Rightarrow> 'f ret) \<Rightarrow> string \<Rightarrow> 'f gval \<Rightarrow> nat \<Rightarrow> 'f ret" where
  "fillStructSlice call data v off = bind (Len v) (\<lambda>len. Panic (PError (ValueError ''reflect.Value.Len'' KPtr)))"

text \<open>
  \<open>dictDecoder\<close> on the value \<open>v\<close>, addressable when \<open>addr\<close> holds. The assertion
  \<^verbatim>\<open>.(map[string]interface{})\<close> is a run-time panic for a map of another type.
\<close>

definition dictDecoder :: "('f call \<Rightarrow> nat \<Rightarrow> 'f ret) \<Rightarrow> 'f stdlib \<Rightarrow> string \<Rightarrow> string
    \<Rightarrow> bool \<Rightarrow> 'f gval \<Rightarrow> nat \<Rightarrow> 'f ret" where
  "dictDecoder call L data key addr v off =
     bind (IsNil v) (\<lambda>isnil.
       (let mapValue = (if isnil then GMap TString TIface (Some []) else v)
        in if kind_of mapValue = KPtr \<or> kind_of mapValue = KInterface then
             bind (Elem mapValue) (\<lambda>x.
             bind (call (CDictDecoder (snd x) (fst x)) off) (\<lambda>(x', off1). Ok (with_elem v x', off1)))
           else
             bind (case mapValue of
                     GMap kt vt m \<Rightarrow>
                       if kt = TString \<and> vt = TIface
                       then fillMap call data (case m of None \<Rightarrow> [] | Some kvs \<Rightarrow> kvs) off
                       else Panic (PRuntime ''interface conversion: interface {} is not map[string]interface {}'')
                   | GStruct sname flds \<Rightarrow> fillStruct call L data addr mapValue off
                   | _ \<Rightarrow> Ok (mapValue, off)) (\<lambda>(mapValue', off1).
             bind (if isnil then Set (v, addr) mapValue' else Ok mapValue') (\<lambda>v'.
             bind (read data off1 1) (\<lambda>(s, off2). Ok (v', off2))))))"

text \<open>\<open>listDecoder\<close>; \<open>isValidList\<close> asks for a pointer.\<close>

definition isValidList :: "'f gval \<Rightarrow> bool res" where
  "isValidList v =
     (if v = GNil then Panic (PError (ValueError ''reflect.Value.Type'' KInvalid))
      else Ok (kind_of v = KPtr))"

definition listDecoder :: "('f call \<Rightarrow> nat \<Rightarrow> 'f ret) \<Rightarrow> string \<Rightarrow> string \<Rightarrow> 'f gval \<Rightarrow> nat \<Rightarrow> 'f ret" where
  "listDecoder call data key v off =
     bind (isValidList v) (\<lambda>valid.
       if \<not> valid then Ok (v, off)
       else
         bind (Elem v) (\<lambda>x.
         bind (IsNil (fst x)) (\<lambda>isnil.
           (let sliceValue = (if isnil then GPtr (TSlice TIface) (Some (GSlice TIface (Some []))) else v)
            in bind (Elem sliceValue) (\<lambda>sx.
               bind (if kind_of (fst sx) = KStruct then fillStructSlice call data sliceValue off
                     else fillSlice call data sliceValue off) (\<lambda>(sliceValue', off1).
               (let v1 = (if isnil then v else sliceValue')
                in bind (Elem v1) (\<lambda>x1.
                   bind (IsNil (fst x1)) (\<lambda>isnil1.
                   bind (if isnil1 then bind (Set x1 sliceValue') (\<lambda>x2. Ok (with_elem v1 x2)) else Ok v1) (\<lambda>v2.
                   bind (read data off1 1) (\<lambda>(s, off2). Ok (v2, off2))))))))))))"

text \<open>
  The message of the error for an unknown tag formats the next byte, which is read with
  \<open>peek\<close> before the panic is raised.
\<close>

definition invalidType :: "string \<Rightarrow> nat \<Rightarrow> 'f ret" where
  "invalidType data off =
     bind (peek data off) (\<lambda>c.
       Panic (PError (DecodeError (''invalid utcode type '' @ [CHR 0x27] @ ''%!s(uint8=''
         @ show_nat (of_char c) @ '')'' @ [CHR 0x27]))))"

definition decodeType :: "('f call \<Rightarrow> nat \<Rightarrow> 'f ret) \<Rightarrow> 'f stdlib \<Rightarrow> string \<Rightarrow> 'f gval \<Rightarrow> nat \<Rightarrow> 'f ret" where
  "decodeType call L data v off =
     (if off \<ge> length data then Ok (v, off)
      else
        (case readUntil data off (CHR '':'') of
           None \<Rightarrow> Panic (PError (DecodeError ''invalid utcode''))
         | Some (key, off1) \<Rightarrow>
             bind (read data off1 1) (\<lambda>(s, off2).
               (let t = hd key
                in if t = CHR ''n'' then nilDecoder data key v off2
                   else if t = CHR ''b'' then boolDecoder data key v off2
                   else if t = CHR ''i'' then intDecoder data key v off2
                   else if t = CHR ''f'' then floatDecoder L data key v off2
                   else if t = CHR ''s'' then stringDecoder data key v off2
                   else if t = CHR ''u'' then unicodeDecoder data key v off2
                   else if t = CHR ''d'' then dictDecoder call L data key False v off2
                   else if t = CHR ''l'' then listDecoder call data key v off2
                   else if t = CHR ''c'' then customDecoder data key v off2
                   else invalidType data off2))))"

definition decodeTypeAndCreate :: "('f call \<Rightarrow> nat \<Rightarrow> 'f ret) \<Rightarrow> 'f stdlib \<Rightarrow> string \<Rightarrow> nat \<Rightarrow> 'f ret" where
  "decodeTypeAndCreate call L data off =
     (if off \<ge> length data then Ok (GNil, off)
      else
        (case readUntil data off (CHR '':'') of
           None \<Rightarrow> Panic (PError (DecodeError ''invalid utcode''))
         | Some (key, off1) \<Rightarrow>
             bind (read data off1 1) (\<lambda>(s, off2).
               (let t = hd key
                in if t = CHR ''n'' then nilDecoder data key GNil off2
                   else if t = CHR ''b'' then boolDecoder data key (GPtr TBool (Some (GBool False))) off2
                   else if t = CHR ''i'' then intDecoder data key (GPtr TInt (Some (GInt 0))) off2
                   else if t = CHR ''f'' then floatDecoder L data key (GPtr TFloat (Some (GFloat (fzero L)))) off2
                   else if t = CHR ''s'' then stringDecoder data key (GPtr TString (Some (GString []))) off2
                   else if t = CHR ''u'' then unicodeDecoder data key (GPtr TString (Some (GString []))) off2
                   else if t = CHR ''d'' then
                     dictDecoder call L data key False
                       (GPtr (TMap TString TIface) (Some (GMap TString TIface (Some [])))) off2
                   else if t = CHR ''l'' then
                     listDecoder call data key (GPtr (TSlice TIface) (Some (GSlice TIface (Some [])))) off2
                   else if t = CHR ''c'' then Panic (PError (DecodeError ''custom type must be top-level''))
                   else invalidType data off2))))"

text \<open>
  \<open>exec n\<close> runs a call with the budget \<open>n\<close>: every call of \<open>decodeType\<close> and
  \<open>decodeTypeAndCreate\<close>, every further turn of a loop and every step of
  \<open>dictDecoder\<close> through a pointer takes one unit.
\<close>

primrec exec :: "nat \<Rightarrow> 'f stdlib \<Rightarrow> string \<Rightarrow> 'f call \<Rightarrow> nat \<Rightarrow> 'f ret" where
  "exec 0 L data c off = OutOfFuel"
| "exec (Suc n) L data c off =
     (case c of
        CDecodeType v \<Rightarrow> decodeType (exec n L data) L data v off
      | CDecodeTypeAndCreate \<Rightarrow> decodeTypeAndCreate (exec n L data) L data off
      | CDictDecoder addr v \<Rightarrow> dictDecoder (exec n L data) L data [] addr v off
      | CFillMap out \<Rightarrow> fillMap (exec n L data) data out off
      | CFillStruct addr v \<Rightarrow> fillStruct (exec n L data) L data addr v off
      | CFillSlice v len i \<Rightarrow> fillSliceLoop (exec n L data) data v len i off)"

text \<open>
  \<open>Decode\<close>: the prefix, then create mode for a nil destination and bind mode
  otherwise. \<^verbatim>\<open>reflect.ValueOf(v)\<close> is not addressable. The result \<open>Returned v'\<close> is
  the return of a nil error, with the destination \<open>v'\<close>.
\<close>

definition Decoder_Decode :: "nat \<Rightarrow> 'f stdlib \<Rightarrow> string \<Rightarrow> 'f gval \<Rightarrow> 'f gval res" where
  "Decoder_Decode n L data v =
     (case readAndMatch data 0 3 ''ut:'' of
        (False, off) \<Rightarrow> Panic (PError (DecodeError ''invalid utcode''))
      | (True, off) \<Rightarrow>
          bind (IsNil v) (\<lambda>isnil.
            if isnil then
              bind (exec n L data CDecodeTypeAndCreate off) (\<lambda>(val, off1). Set (v, False) val)
            else
              bind (exec n L data (CDecodeType v) off) (\<lambda>(v', off1). Ok v')))"

definition Decode :: "nat \<Rightarrow> 'f stdlib \<Rightarrow> string \<Rightarrow> 'f gval \<Rightarrow> 'f gval outcome" where
  "Decode n L data v = recover (Decoder_Decode n L data v)"



section \<open>An instance of the floating point operations\<close>

text \<open>
  The theorems hold for any floating point library. For the instances that are
  evaluated, \<open>halves\<close> is the library restricted to the multiples of one half: the
  number \<open>k / 2\<close> is the integer \<open>k\<close>, written as Go writes it (\<open>3\<close>, \<open>1.5\<close>,
  \<open>-0.5\<close>). It is used in the evaluated instances only, on small numbers: it does not
  write the exponent form that Go takes from \<open>1e+06\<close> on, and of the texts that
  \<^verbatim>\<open>strconv.ParseFloat\<close> accepts it reads only digits followed by nothing, \<open>.0\<close>
  or \<open>.5\<close>.
\<close>

definition fmtHalf :: "int \<Rightarrow> string" where
  "fmtHalf k =
     (if k < 0 then ''-'' else []) @ show_nat (nat \<bar>k\<bar> div 2) @ (if even k then [] else ''.5'')"

definition parseHalf :: "string \<Rightarrow> int option" where
  "parseHalf s =
     (let neg = (s \<noteq> [] \<and> hd s = CHR ''-'');
          body = (if neg then tl s else s);
          whole = takeWhile (\<lambda>c. c \<noteq> CHR ''.'') body;
          frac = dropWhile (\<lambda>c. c \<noteq> CHR ''.'') body
      in if whole = [] \<or> (frac \<noteq> [] \<and> frac \<noteq> ''.5'' \<and> frac \<noteq> ''.0'') then None
         else (case parse_digits False 10 0 whole of
                 None \<Rightarrow> None
               | Some i \<Rightarrow>
                   (let k = 2 * i + (if frac = ''.5'' then 1 else 0)
                    in Some (if neg then - k else k))))"

definition halves :: "int stdlib" where
  "halves = \<lparr>fmtFloat = fmtHalf, parseFloat = parseHalf, isWhole = even, fzero = 0\<rparr>"

section \<open>The scalars of the round trip\<close>

text \<open>
  The scalar values that are encoded and decoded again: a boolean, a signed integer of
  64 bits, a floating point number that is not whole, a text. What is asked of the
  floating point library is what \<^verbatim>\<open>strconv\<close> gives: the text of a number is not empty,
  has no \<open>z\<close> in it, and is parsed back to the number. The text of the base64 form is
  shorter than \<open>2 ^ 63\<close> bytes, the range of the \<^verbatim>\<open>int\<close> that holds its length.
\<close>

fun supported_scalar :: "'f stdlib \<Rightarrow> 'f gval \<Rightarrow> bool" where
  "supported_scalar L (GBool b) = True"
| "supported_scalar L (GInt i) = (- (2 ^ 63) \<le> i \<and> i < 2 ^ 63)"
| "supported_scalar L (GFloat f) =
     (\<not> isWhole L f \<and> fmtFloat L f \<noteq> [] \<and> CHR ''z'' \<notin> set (fmtFloat L f)
      \<and> parseFloat L (fmtFloat L f) = Some f)"
| "supported_scalar L (GString s) = (int (length (b64encode s)) < 2 ^ 63)"
| "supported_scalar L v = False"

section \<open>The wire grammar\<close>

text \<open>
  The documents of the wire grammar, as the specification gives it: a value is one of
  \<open>n:e\<close>, \<open>b:0\<close> or \<open>b:1\<close>, \<open>i:\<close> digits \<open>e\<close> with an optional sign,
  \<open>f:\<close> digits \<open>.\<close> digits \<open>z\<close>, \<open>s\<close> or \<open>u\<close> with a length, a colon and that
  many bytes, \<open>d:\<close> pairs \<open>e\<close> where a pair is a key \<open>k\<close> with a length, a colon and
  that many bytes and then a value, and \<open>l:\<close> values \<open>e\<close>. \<open>tag\<close> is the token
  before the first colon of a value and \<open>payload\<close> what follows the colon.
\<close>

datatype wire =
    WAbsent
  | WBool bool
  | WInt bool string
  | WFloat string string
  | WText string
  | WUdata string
  | WDict "(string \<times> wire) list"
  | WList "wire list"

fun tag :: "wire \<Rightarrow> string" where
  "tag WAbsent = ''n''"
| "tag (WBool b) = ''b''"
| "tag (WInt neg ds) = ''i''"
| "tag (WFloat a b) = ''f''"
| "tag (WText s) = CHR ''s'' # show_nat (length s)"
| "tag (WUdata p) = CHR ''u'' # show_nat (length p)"
| "tag (WDict kvs) = ''d''"
| "tag (WList ws) = ''l''"

function (sequential) payload :: "wire \<Rightarrow> string"
  and render_pairs :: "(string \<times> wire) list \<Rightarrow> string"
  and render_list :: "wire list \<Rightarrow> string" where
  "payload WAbsent = ''e''"
| "payload (WBool b) = (if b then ''1'' else ''0'')"
| "payload (WInt neg ds) = (if neg then ''-'' else []) @ ds @ ''e''"
| "payload (WFloat a b) = a @ ''.'' @ b @ ''z''"
| "payload (WText s) = s"
| "payload (WUdata p) = p"
| "payload (WDict kvs) = render_pairs kvs @ ''e''"
| "payload (WList ws) = render_list ws @ ''e''"
| "render_pairs [] = []"
| "render_pairs ((k, w) # kvs) =
     CHR ''k'' # show_nat (length k) @ '':'' @ k @ (tag w @ '':'' @ payload w) @ render_pairs kvs"
| "render_list [] = []"
| "render_list (w # ws) = (tag w @ '':'' @ payload w) @ render_list ws"
  by pat_completeness auto

termination
  by (relation "measure (\<lambda>x. case x of
        Inl w \<Rightarrow> size w
      | Inr (Inl kvs) \<Rightarrow> size_list (size_prod (\<lambda>x. 0) size) kvs
      | Inr (Inr ws) \<Rightarrow> size_list size ws)")
    auto

definition render :: "wire \<Rightarrow> string" where
  "render w = tag w @ '':'' @ payload w"

definition digits :: "string \<Rightarrow> bool" where
  "digits s \<longleftrightarrow> s \<noteq> [] \<and> list_all (\<lambda>c. 48 \<le> (of_char c :: nat) \<and> (of_char c :: nat) \<le> 57) s"

text \<open>
  A well-formed value: the digits of a number are digits. The lengths are those of the
  bytes that follow by construction, and the bytes of a text, of a key and of a base64
  payload may be any bytes.
\<close>

function (sequential) wf :: "wire \<Rightarrow> bool"
  and wf_pairs :: "(string \<times> wire) list \<Rightarrow> bool"
  and wf_list :: "wire list \<Rightarrow> bool" where
  "wf (WInt neg ds) = digits ds"
| "wf (WFloat a b) = (digits a \<and> digits b)"
| "wf (WDict kvs) = wf_pairs kvs"
| "wf (WList ws) = wf_list ws"
| "wf w = True"
| "wf_pairs [] = True"
| "wf_pairs ((k, w) # kvs) = (wf w \<and> wf_pairs kvs)"
| "wf_list [] = True"
| "wf_list (w # ws) = (wf w \<and> wf_list ws)"
  by pat_completeness auto

termination
  by (relation "measure (\<lambda>x. case x of
        Inl w \<Rightarrow> size w
      | Inr (Inl kvs) \<Rightarrow> size_list (size_prod (\<lambda>x. 0) size) kvs
      | Inr (Inr ws) \<Rightarrow> size_list size ws)")
    auto

section \<open>Two runs on buffers that share a document\<close>

text \<open>
  The predicates below compare a run of the decoder on a buffer \<open>data1\<close> with a run
  on a buffer \<open>data2\<close>, where both buffers hold the same well-formed value (or the same
  pairs, or the same elements) at the same offset and differ after it. \<open>call1\<close> and
  \<open>call2\<close> are the callees of the two runs. A call that succeeds in the first run
  succeeds in the second with the same result, and it stops at the end of the value,
  with two exceptions in bind mode: \<open>dictDecoder\<close> on a destination that is neither a
  map nor a struct reads one byte of the dictionary, and \<open>listDecoder\<close> on a
  destination that is not a pointer reads nothing.
\<close>

definition tracked_bind :: "wire \<Rightarrow> 'f gval \<Rightarrow> nat \<Rightarrow> nat \<Rightarrow> bool" where
  "tracked_bind w v off off' \<longleftrightarrow>
     off' = off + length (render w)
     \<or> (\<exists>kvs. w = WDict kvs \<and> kvs \<noteq> [] \<and> off' = off + 3)
     \<or> (\<exists>ws. w = WList ws \<and> kind_of v \<noteq> KPtr \<and> off' = off + 2)"

definition tracked_dict :: "(string \<times> wire) list \<Rightarrow> nat \<Rightarrow> nat \<Rightarrow> bool" where
  "tracked_dict kvs off off' \<longleftrightarrow>
     off' = off + length (render_pairs kvs) + 1 \<or> (kvs \<noteq> [] \<and> off' = off + 1)"

text \<open>A destination on which \<open>dictDecoder\<close> fills a map: a map, or a pointer to one.\<close>

definition map_dest :: "'f gval \<Rightarrow> bool" where
  "map_dest v \<longleftrightarrow> kind_of v = KMap \<or> (\<exists>t m. v = GPtr t (Some m) \<and> kind_of m = KMap)"

definition good_bind :: "('f call \<Rightarrow> nat \<Rightarrow> 'f ret) \<Rightarrow> ('f call \<Rightarrow> nat \<Rightarrow> 'f ret) \<Rightarrow> string \<Rightarrow> string \<Rightarrow> bool" where
  "good_bind call1 call2 data1 data2 \<longleftrightarrow>
     (\<forall>pre w s1 s2 v res off'.
        wf w \<longrightarrow> data1 = pre @ render w @ s1 \<longrightarrow> data2 = pre @ render w @ s2 \<longrightarrow>
        call1 (CDecodeType v) (length pre) = Ok (res, off') \<longrightarrow>
        call2 (CDecodeType v) (length pre) = Ok (res, off') \<and> tracked_bind w v (length pre) off')"

definition good_create :: "('f call \<Rightarrow> nat \<Rightarrow> 'f ret) \<Rightarrow> ('f call \<Rightarrow> nat \<Rightarrow> 'f ret) \<Rightarrow> string \<Rightarrow> string \<Rightarrow> bool" where
  "good_create call1 call2 data1 data2 \<longleftrightarrow>
     (\<forall>pre w s1 s2 res off'.
        wf w \<longrightarrow> data1 = pre @ render w @ s1 \<longrightarrow> data2 = pre @ render w @ s2 \<longrightarrow>
        call1 CDecodeTypeAndCreate (length pre) = Ok (res, off') \<longrightarrow>
        call2 CDecodeTypeAndCreate (length pre) = Ok (res, off') \<and> off' = length pre + length (render w))"

definition good_dict :: "('f call \<Rightarrow> nat \<Rightarrow> 'f ret) \<Rightarrow> ('f call \<Rightarrow> nat \<Rightarrow> 'f ret) \<Rightarrow> string \<Rightarrow> string \<Rightarrow> bool" where
  "good_dict call1 call2 data1 data2 \<longleftrightarrow>
     (\<forall>pre kvs s1 s2 addr v res off'.
        wf_pairs kvs \<longrightarrow> data1 = pre @ render_pairs kvs @ CHR ''e'' # s1 \<longrightarrow>
        data2 = pre @ render_pairs kvs @ CHR ''e'' # s2 \<longrightarrow>
        call1 (CDictDecoder addr v) (length pre) = Ok (res, off') \<longrightarrow>
        call2 (CDictDecoder addr v) (length pre) = Ok (res, off') \<and> tracked_dict kvs (length pre) off'
        \<and> (map_dest v \<longrightarrow> off' = length pre + length (render_pairs kvs) + 1))"

definition good_fillmap :: "('f call \<Rightarrow> nat \<Rightarrow> 'f ret) \<Rightarrow> ('f call \<Rightarrow> nat \<Rightarrow> 'f ret) \<Rightarrow> string \<Rightarrow> string \<Rightarrow> bool" where
  "good_fillmap call1 call2 data1 data2 \<longleftrightarrow>
     (\<forall>pre kvs s1 s2 out res off'.
        wf_pairs kvs \<longrightarrow> data1 = pre @ render_pairs kvs @ CHR ''e'' # s1 \<longrightarrow>
        data2 = pre @ render_pairs kvs @ CHR ''e'' # s2 \<longrightarrow>
        call1 (CFillMap out) (length pre) = Ok (res, off') \<longrightarrow>
        call2 (CFillMap out) (length pre) = Ok (res, off') \<and> off' = length pre + length (render_pairs kvs))"

definition good_fillslice :: "('f call \<Rightarrow> nat \<Rightarrow> 'f ret) \<Rightarrow> ('f call \<Rightarrow> nat \<Rightarrow> 'f ret) \<Rightarrow> string \<Rightarrow> string \<Rightarrow> bool" where
  "good_fillslice call1 call2 data1 data2 \<longleftrightarrow>
     (\<forall>pre ws s1 s2 v len i res off'.
        wf_list ws \<longrightarrow> data1 = pre @ render_list ws @ CHR ''e'' # s1 \<longrightarrow>
        data2 = pre @ render_list ws @ CHR ''e'' # s2 \<longrightarrow>
        call1 (CFillSlice v len i) (length pre) = Ok (res, off') \<longrightarrow>
        call2 (CFillSlice v len i) (length pre) = Ok (res, off') \<and> off' = length pre + length (render_list ws))"

text \<open>
  At the length of a key, which is where \<open>dictDecoder\<close> leaves the offset when it
  reads one byte of a dictionary, no value and no element can be decoded.
\<close>

definition stuck :: "('f call \<Rightarrow> nat \<Rightarrow> 'f ret) \<Rightarrow> string \<Rightarrow> bool" where
  "stuck call1 data1 \<longleftrightarrow>
     (\<forall>pre m s v len i r.
        data1 = pre @ show_nat m @ CHR '':'' # s \<longrightarrow>
        call1 CDecodeTypeAndCreate (length pre) \<noteq> Ok r \<and>
        call1 (CDecodeType v) (length pre) \<noteq> Ok r \<and>
        call1 (CFillSlice v len i) (length pre) \<noteq> Ok r)"

definition good :: "('f call \<Rightarrow> nat \<Rightarrow> 'f ret) \<Rightarrow> ('f call \<Rightarrow> nat \<Rightarrow> 'f ret) \<Rightarrow> string \<Rightarrow> string \<Rightarrow> bool" where
  "good call1 call2 data1 data2 \<longleftrightarrow>
     good_bind call1 call2 data1 data2 \<and> good_create call1 call2 data1 data2 \<and>
     good_dict call1 call2 data1 data2 \<and> good_fillmap call1 call2 data1 data2 \<and>
     good_fillslice call1 call2 data1 data2 \<and> stuck call1 data1"

section \<open>Properties of the encoder\<close>

lemma boolEncoder_V0_digit:
  "Encode L V0 (GBool True) = Returned ''ut:b:1'' \<and> Encode L V0 (GBool False) = Returned ''ut:b:0''"
  by (simp add: Encode_def Encoder_Encode_def)

text \<open>
  Claim C2: the encoder writes a boolean as \<open>b:\<close> and one digit, \<open>1\<close> for true and
  \<open>0\<close> for false, so that the two encodings differ. The encoder that writes to an
  \<^verbatim>\<open>io.Writer\<close> appends \<open>0\<close> in both branches: true and false have the same encoding.
\<close>

theorem boolEncoder_V1_same_digit:
  "Encode L V1 (GBool True) = Returned ''ut:b:0'' \<and> Encode L V1 (GBool False) = Returned ''ut:b:0''"
  by (simp add: Encode_def Encoder_Encode_def)

lemma nil_ptr_slice_absent:
  "Encode L ver (GPtr t None) = Returned ''ut:n:e'' \<and>
   Encode L ver (GSlice t None) = Returned ''ut:n:e'' \<and>
   Encode L ver (GBytes None) = Returned ''ut:n:e'' \<and>
   Encode L ver (GIface None) = Returned ''ut:n:e'' \<and>
   Encode L ver GNil = Returned ''ut:n:e''"
  by (cases ver) (simp_all add: Encode_def Encoder_Encode_def)

text \<open>
  Claim C4: a nil reference, a nil sequence and a nil mapping are each encoded as
  exactly \<open>n:e\<close>. \<open>mapEncoder\<close> writes \<open>n:e\<close> for a nil map and does not return:
  it goes on to write an empty dictionary after it, in both versions of the encoder.
\<close>

theorem mapEncoder_nil_writes_dict:
  "Encode L V0 (GMap TString TString None) = Returned ''ut:n:ed:e'' \<and>
   Encode L V1 (GMap TString TString None) = Returned ''ut:n:ed:e''"
  by (simp add: Encode_def Encoder_Encode_def)

text \<open>
  Claim C7: encoding a map with a key that is not a string fails with an error returned
  to the caller, and never crashes the process. \<open>mapEncoder\<close> panics with a string,
  and the deferred function of \<open>Encoder.Encode\<close> raises a recovered string again: the
  panic leaves \<open>Encode\<close>. The input is \<^verbatim>\<open>map[int]string{1: "a"}\<close>.
\<close>

theorem mapEncoder_key_panic_crashes:
  "Encode L V0 (GMap TInt TString (Some [(GInt 1, GString ''a'')]))
     = Crashed (PString ''map encoding supports only string as key'') \<and>
   Encode L V1 (GMap TInt TString (Some [(GInt 1, GString ''a'')]))
     = Crashed (PString ''map encoding supports only string as key'')"
  by (simp add: Encode_def Encoder_Encode_def)


section \<open>Results of calls\<close>

lemma recover_Returned [simp]: "recover r = Returned x \<longleftrightarrow> r = Ok x"
  by (cases r rule: recover.cases) auto

lemma bind_eq_Ok: "bind m f = Ok y \<longleftrightarrow> (\<exists>x. m = Ok x \<and> f x = Ok y)"
  by (cases m) auto

section \<open>Reading tokens\<close>

lemma takeWhile_until:
  assumes "ch \<notin> set k"
  shows "takeWhile (\<lambda>c. c \<noteq> ch) (k @ ch # rest) = k"
proof -
  have "\<And>x. x \<in> set k \<Longrightarrow> x \<noteq> ch" using assms by auto
  then show ?thesis by (simp add: takeWhile_append2)
qed

lemma readUntil_found:
  assumes "ch \<notin> set k" and "k \<noteq> []"
  shows "readUntil (pre @ k @ ch # rest) (length pre) ch = Some (k, length pre + length k)"
  using assms by (simp add: readUntil_def takeWhile_until)

lemma read_exact:
  "read (pre @ s @ rest) (length pre) (int (length s)) = Ok (s, length pre + length s)"
  by (simp add: read_def)

lemma read_one:
  "read (pre @ c # rest) (length pre) 1 = Ok ([c], length pre + 1)"
  by (simp add: read_def)

lemma peek_at:
  "peek (pre @ c # rest) (length pre) = Ok c"
  by (simp add: peek_def)

section \<open>Decimal numerals\<close>

lemma of_char_digit_char: "d < 10 \<Longrightarrow> (of_char (digit_char d) :: nat) = 48 + d"
  by (simp add: digit_char_def)

lemma digit_val_digit_char: "d < 10 \<Longrightarrow> digit_val (digit_char d) = Some d"
  by (simp add: digit_val_def of_char_digit_char)

lemma digit_char_neq:
  assumes "d < 10" and "(of_char c :: nat) < 48 \<or> 57 < (of_char c :: nat)"
  shows "digit_char d \<noteq> c"
  using assms of_char_digit_char [of d] by auto

lemma show_nat_digits: "c \<in> set (show_nat n) \<Longrightarrow> \<exists>d<10. c = digit_char d"
proof (induction n rule: show_nat.induct)
  case (1 n)
  show ?case
  proof (cases "n < 10")
    case True
    with "1.prems" show ?thesis by (auto simp add: show_nat.simps [of n])
  next
    case False
    with "1.prems" have "c \<in> set (show_nat (n div 10)) \<or> c = digit_char (n mod 10)"
      by (auto simp add: show_nat.simps [of n])
    then show ?thesis
    proof
      assume "c \<in> set (show_nat (n div 10))"
      with False "1.IH" show ?thesis by simp
    next
      assume "c = digit_char (n mod 10)"
      moreover have "n mod 10 < 10" by simp
      ultimately show ?thesis by blast
    qed
  qed
qed

lemma show_nat_not_in:
  assumes "(of_char c :: nat) < 48 \<or> 57 < (of_char c :: nat)"
  shows "c \<notin> set (show_nat n)"
  using show_nat_digits [of c n] digit_char_neq [OF _ assms] by blast

lemma show_nat_nonempty: "show_nat n \<noteq> []"
  by (subst show_nat.simps) simp

lemma digit_char_0: "digit_char 0 = CHR ''0''"
  by code_simp

lemma show_nat_0: "show_nat 0 = ''0''"
  by (simp add: show_nat.simps [of 0] digit_char_0)

lemma parse_digits_append:
  "parse_digits b0 base acc (s @ t) =
     (case parse_digits b0 base acc s of None \<Rightarrow> None | Some v \<Rightarrow> parse_digits b0 base v t)"
  by (induction s arbitrary: acc) (auto split: option.splits)

lemma parse_digits_digit:
  assumes "d < 10"
  shows "parse_digits b0 10 acc [digit_char d] = Some (acc * 10 + int d)"
  using assms digit_char_neq [OF assms, of "CHR ''_''"]
  by (simp add: digit_val_digit_char)

lemma parse_digits_show_nat: "parse_digits b0 10 0 (show_nat n) = Some (int n)"
proof (induction n rule: show_nat.induct)
  case (1 n)
  show ?case
  proof (cases "n < 10")
    case True
    then show ?thesis
      by (simp add: show_nat.simps [of n] parse_digits_digit del: parse_digits.simps)
  next
    case False
    have m: "n mod 10 < 10" by simp
    have "int (n div 10) * 10 + int (n mod 10) = int n"
      by (simp add: zdiv_int zmod_int)
    with False "1.IH" show ?thesis
      by (simp add: show_nat.simps [of n] parse_digits_append parse_digits_digit [OF m]
          del: parse_digits.simps)
  qed
qed

lemma hd_show_nat:
  "0 < n \<Longrightarrow> \<exists>d. 0 < d \<and> d < 10 \<and> hd (show_nat n) = digit_char d"
proof (induction n rule: show_nat.induct)
  case (1 n)
  show ?case
  proof (cases "n < 10")
    case True
    with "1.prems" show ?thesis by (auto simp add: show_nat.simps [of n])
  next
    case False
    then have "0 < n div 10" by simp
    with False "1.IH" show_nat_nonempty [of "n div 10"] show ?thesis
      by (auto simp add: show_nat.simps [of n])
  qed
qed

lemma ParseUint0_show_nat:
  assumes "int n < 2 ^ 64"
  shows "ParseUint0 (show_nat n) = Some (int n)"
proof (cases "n = 0")
  case True
  then show ?thesis
    by (simp add: ParseUint0_def show_nat_0)
next
  case False
  then obtain d where d: "0 < d" "d < 10" "hd (show_nat n) = digit_char d"
    using hd_show_nat [of n] by auto
  have "digit_char d \<noteq> CHR ''0''"
    using d of_char_digit_char [of d] by auto
  moreover have "CHR ''_'' \<notin> set (show_nat n)"
    by (rule show_nat_not_in) simp
  ultimately show ?thesis
    using assms d show_nat_nonempty [of n]
    by (simp add: ParseUint0_def parse_digits_show_nat)
qed

lemma ParseInt0_show_nat:
  assumes "int n < 2 ^ 63"
  shows "ParseInt0 (show_nat n) = Some (int n)"
proof -
  have a: "int n < 2 ^ 64" using assms by simp
  have h: "hd (show_nat n) \<in> set (show_nat n)"
    using show_nat_nonempty [of n] by simp
  have "CHR ''-'' \<notin> set (show_nat n)" "CHR ''+'' \<notin> set (show_nat n)"
    by (rule show_nat_not_in, simp)+
  with h have "hd (show_nat n) \<noteq> CHR ''-''" "hd (show_nat n) \<noteq> CHR ''+''"
    by metis+
  then show ?thesis
    using assms show_nat_nonempty [of n]
    by (simp add: ParseInt0_def ParseUint0_show_nat [OF a])
qed

lemma ParseInt0_show_int:
  assumes "- (2 ^ 63) \<le> i" and "i < 2 ^ 63"
  shows "ParseInt0 (show_int i) = Some i"
proof (cases "i < 0")
  case False
  then have "int (nat i) < 2 ^ 63" using assms by simp
  from ParseInt0_show_nat [OF this] False show ?thesis
    by (simp add: show_int_def)
next
  case True
  have a: "int (nat (- i)) < 2 ^ 64" using assms True by simp
  have b: "int (nat (- i)) \<le> 2 ^ 63" using assms True by simp
  from True b show ?thesis
    by (simp add: show_int_def ParseInt0_def ParseUint0_show_nat [OF a])
qed

lemma show_int_not_in:
  assumes "(of_char c :: nat) < 45 \<or> 57 < (of_char c :: nat)"
  shows "c \<notin> set (show_int i)"
proof -
  have "c \<notin> set (show_nat n)" for n
    using assms by (intro show_nat_not_in) auto
  moreover have "c \<noteq> CHR ''-''" using assms by auto
  ultimately show ?thesis by (simp add: show_int_def)
qed

lemma show_int_nonempty: "show_int i \<noteq> []"
  by (simp add: show_int_def show_nat_nonempty)

section \<open>Base64\<close>

lemma b64_alphabet:
  "map b64char [0..<64] = ''ABCDEFGHIJKLMNOPQRSTUVWXYZabcdefghijklmnopqrstuvwxyz0123456789+/''"
  by code_simp

lemma b64val_b64char: "n < 64 \<Longrightarrow> b64val (b64char n) = Some n"
  by (auto simp add: b64val_def b64char_def Let_def)

lemma b64char_plain:
  "n < 64 \<Longrightarrow> b64char n \<noteq> CHR ''='' \<and> b64char n \<noteq> CHR 0x0D \<and> b64char n \<noteq> CHR 0x0A"
  using b64val_b64char [of n] by (auto simp add: b64val_def)

lemma of_char_less: "(of_char c :: nat) < 256"
  by simp

lemma char_of_of_char_nat: "char_of (of_char c :: nat) = c"
  by simp

lemma sextets:
  fixes x y z :: nat
  assumes "x < 256" "y < 256" "z < 256"
  shows "x div 4 < 64" "(x mod 4) * 16 + y div 16 < 64" "(y mod 16) * 4 + z div 64 < 64"
    "z mod 64 < 64" "(x mod 4) * 16 < 64" "(y mod 16) * 4 < 64"
  using assms by auto

lemma octets:
  fixes x y z :: nat
  assumes "x < 256" "y < 256" "z < 256"
  shows "(x div 4) * 4 + ((x mod 4) * 16 + y div 16) div 16 = x"
    "(((x mod 4) * 16 + y div 16) mod 16) * 16 + ((y mod 16) * 4 + z div 64) div 4 = y"
    "(((y mod 16) * 4 + z div 64) mod 4) * 64 + z mod 64 = z"
    "(x div 4) * 4 + ((x mod 4) * 16) div 16 = x"
    "(((x mod 4) * 16 + y div 16) mod 16) * 16 + ((y mod 16) * 4) div 4 = y"
  using assms by auto

lemma b64quanta_b64encode: "b64quanta (b64encode s) = Some s"
proof (induction s rule: b64encode.induct)
  case 1
  show ?case by simp
next
  case (2 a)
  define x where "x = (of_char a :: nat)"
  have x: "x < 256" by (simp add: x_def)
  have "char_of x = a" by (simp add: x_def)
  then show ?case
    using sextets [OF x x x] octets [OF x x x] b64char_plain
    by (simp add: Let_def x_def [symmetric] b64val_b64char)
next
  case (3 a b)
  define x where "x = (of_char a :: nat)"
  define y where "y = (of_char b :: nat)"
  have x: "x < 256" and y: "y < 256" by (simp_all add: x_def y_def)
  have "char_of x = a" "char_of y = b" by (simp_all add: x_def y_def)
  then show ?case
    using sextets [OF x y y] octets [OF x y y] b64char_plain
    by (simp add: Let_def x_def [symmetric] y_def [symmetric] b64val_b64char)
next
  case (4 a b c rest)
  define x where "x = (of_char a :: nat)"
  define y where "y = (of_char b :: nat)"
  define z where "z = (of_char c :: nat)"
  have x: "x < 256" and y: "y < 256" and z: "z < 256" by (simp_all add: x_def y_def z_def)
  have "char_of x = a" "char_of y = b" "char_of z = c" by (simp_all add: x_def y_def z_def)
  then show ?case
    using sextets [OF x y z] octets [OF x y z] b64char_plain "4.IH"
    by (simp add: Let_def x_def [symmetric] y_def [symmetric] z_def [symmetric] b64val_b64char)
qed

lemma b64encode_plain:
  "c \<in> set (b64encode s) \<Longrightarrow> c \<noteq> CHR 0x0D \<and> c \<noteq> CHR 0x0A"
proof (induction s rule: b64encode.induct)
  case 1
  then show ?case by simp
next
  case (2 a)
  have x: "(of_char a :: nat) < 256" by simp
  from 2 sextets [OF x x x] b64char_plain show ?case
    by (auto simp add: Let_def)
next
  case (3 a b)
  have x: "(of_char a :: nat) < 256" and y: "(of_char b :: nat) < 256" by simp_all
  from 3 sextets [OF x y y] b64char_plain show ?case
    by (auto simp add: Let_def)
next
  case (4 a b c' rest)
  have x: "(of_char a :: nat) < 256" and y: "(of_char b :: nat) < 256"
    and z: "(of_char c' :: nat) < 256" by simp_all
  from 4 sextets [OF x y z] b64char_plain show ?case
    by (auto simp add: Let_def)
qed

lemma b64decode_b64encode: "b64decode (b64encode s) = Some s"
proof -
  have "filter (\<lambda>c. c \<noteq> CHR 0x0D \<and> c \<noteq> CHR 0x0A) (b64encode s) = b64encode s"
    using b64encode_plain [of _ s] by (simp add: filter_id_conv)
  then show ?thesis
    by (simp add: b64decode_def b64quanta_b64encode)
qed

section \<open>Decoding a token\<close>

lemma boolDecoder_ok:
  assumes "off = length pre"
  shows "boolDecoder (pre @ c # rest) key (GPtr t (Some (GBool b'))) off
           = Ok (GPtr t (Some (GBool (c \<noteq> CHR ''0''))), off + 1)"
  using assms peek_at [of pre c rest] read_one [of pre c rest]
  by (simp add: boolDecoder_def SetBool_def mustBeAssignable_def)

lemma intDecoder_ok:
  assumes "CHR ''e'' \<notin> set str" and "str \<noteq> []" and "ParseInt0 str = Some i"
    and "off = length pre"
  shows "intDecoder (pre @ str @ CHR ''e'' # rest) key (GPtr t (Some (GInt j))) off
           = Ok (GPtr t (Some (GInt i)), off + length str + 1)"
  using assms readUntil_found [of "CHR ''e''" str pre rest]
    read_one [of "pre @ str" "CHR ''e''" rest]
  by (simp add: intDecoder_def parseInt_def SetInt_def mustBeAssignable_def)

lemma floatDecoder_ok:
  assumes "CHR ''z'' \<notin> set str" and "str \<noteq> []" and "parseFloat L str = Some f"
    and "off = length pre"
  shows "floatDecoder L (pre @ str @ CHR ''z'' # rest) key (GPtr t (Some (GFloat g))) off
           = Ok (GPtr t (Some (GFloat f)), off + length str + 1)"
  using assms readUntil_found [of "CHR ''z''" str pre rest]
    read_one [of "pre @ str" "CHR ''z''" rest]
  by (simp add: floatDecoder_def SetFloat_def mustBeAssignable_def)

lemma unicodeDecoder_ok:
  assumes "ParseInt0 (drop 1 key) = Some (int (length b64))"
    and "b64decode b64 = Some s" and "off = length pre"
  shows "unicodeDecoder (pre @ b64 @ rest) key (GPtr t (Some (GString s'))) off
           = Ok (GPtr t (Some (GString s)), off + length b64)"
  using assms read_exact [of pre b64 rest]
  by (simp add: unicodeDecoder_def parseInt_def SetString_def mustBeAssignable_def)

text \<open>\<open>decodeType\<close> reads the token up to the colon and the colon.\<close>

lemma decodeType_token:
  assumes "CHR '':'' \<notin> set key" and "key \<noteq> []" and "off = length pre"
  shows "readUntil (pre @ key @ CHR '':'' # rest) off (CHR '':'') = Some (key, off + length key)"
    and "read (pre @ key @ CHR '':'' # rest) (off + length key) 1 = Ok ('':'', off + length key + 1)"
  using assms readUntil_found [of "CHR '':''" key pre rest] read_one [of "pre @ key" "CHR '':''" rest]
  by simp_all

text \<open>The top level of \<open>Decode\<close> for a destination that is a pointer with a pointee.\<close>

lemma Decode_bind_mode:
  assumes "data = ''ut:'' @ key @ CHR '':'' # body" and "CHR '':'' \<notin> set key" and "key \<noteq> []"
  shows "Decode (Suc n) L data (GPtr t (Some y)) = Returned v' \<longleftrightarrow>
         (\<exists>off. decodeType (exec n L data) L data (GPtr t (Some y)) 3 = Ok (v', off))"
  using assms
  by (auto simp add: Decode_def Decoder_Decode_def readAndMatch_def bind_eq_Ok)

lemma decodeType_dispatch:
  assumes "data = ''ut:'' @ key @ CHR '':'' # body" and "CHR '':'' \<notin> set key" and "key \<noteq> []"
  shows "decodeType call L data v 3 =
     (let t = hd key; off2 = 4 + length key
      in if t = CHR ''n'' then nilDecoder data key v off2
         else if t = CHR ''b'' then boolDecoder data key v off2
         else if t = CHR ''i'' then intDecoder data key v off2
         else if t = CHR ''f'' then floatDecoder L data key v off2
         else if t = CHR ''s'' then stringDecoder data key v off2
         else if t = CHR ''u'' then unicodeDecoder data key v off2
         else if t = CHR ''d'' then dictDecoder call L data key False v off2
         else if t = CHR ''l'' then listDecoder call data key v off2
         else if t = CHR ''c'' then customDecoder data key v off2
         else invalidType data off2)"
proof -
  define off1 where "off1 = 3 + length key"
  have l3: "(3::nat) = length ''ut:''" by simp
  have a: "readUntil data 3 (CHR '':'') = Some (key, off1)"
    and b: "read data off1 1 = Ok ('':'', Suc off1)"
    using decodeType_token [OF assms(2,3) l3, of body] assms(1) by (simp_all add: off1_def)
  have c: "3 < length data" using assms(1) by simp
  have d: "decodeType call L data v 3 =
     (let t = hd key; off2 = Suc off1
      in if t = CHR ''n'' then nilDecoder data key v off2
         else if t = CHR ''b'' then boolDecoder data key v off2
         else if t = CHR ''i'' then intDecoder data key v off2
         else if t = CHR ''f'' then floatDecoder L data key v off2
         else if t = CHR ''s'' then stringDecoder data key v off2
         else if t = CHR ''u'' then unicodeDecoder data key v off2
         else if t = CHR ''d'' then dictDecoder call L data key False v off2
         else if t = CHR ''l'' then listDecoder call data key v off2
         else if t = CHR ''c'' then customDecoder data key v off2
         else invalidType data off2)"
    using c by (simp add: decodeType_def a b Let_def)
  have e: "Suc off1 = 4 + length key" by (simp add: off1_def)
  show ?thesis unfolding d e ..
qed

section \<open>The round trip of scalars\<close>

lemma Decode_bool_token:
  "Decode (Suc n) L (''ut:b:'' @ c # rest) (GPtr t (Some (GBool b')))
     = Returned (GPtr t (Some (GBool (c \<noteq> CHR ''0''))))"
proof -
  define data where "data = ''ut:b:'' @ c # rest"
  have shape: "data = ''ut:'' @ ''b'' @ CHR '':'' # (c # rest)" by (simp add: data_def)
  have "boolDecoder data ''b'' (GPtr t (Some (GBool b'))) 5
          = Ok (GPtr t (Some (GBool (c \<noteq> CHR ''0''))), 5 + 1)"
    unfolding data_def by (rule boolDecoder_ok) simp
  then have "decodeType (exec n L data) L data (GPtr t (Some (GBool b'))) 3
          = Ok (GPtr t (Some (GBool (c \<noteq> CHR ''0''))), 6)"
    by (simp add: decodeType_dispatch [OF shape])
  then show ?thesis
    unfolding data_def [symmetric] by (simp add: Decode_bind_mode [OF shape])
qed

lemma Decode_int_token:
  assumes "CHR ''e'' \<notin> set str" and "str \<noteq> []" and "ParseInt0 str = Some i"
  shows "Decode (Suc n) L (''ut:i:'' @ str @ CHR ''e'' # rest) (GPtr t (Some (GInt j)))
     = Returned (GPtr t (Some (GInt i)))"
proof -
  define data where "data = ''ut:i:'' @ str @ CHR ''e'' # rest"
  have shape: "data = ''ut:'' @ ''i'' @ CHR '':'' # (str @ CHR ''e'' # rest)" by (simp add: data_def)
  have "intDecoder data ''i'' (GPtr t (Some (GInt j))) 5
          = Ok (GPtr t (Some (GInt i)), 5 + length str + 1)"
    unfolding data_def by (rule intDecoder_ok [OF assms]) simp
  then have "decodeType (exec n L data) L data (GPtr t (Some (GInt j))) 3
          = Ok (GPtr t (Some (GInt i)), 5 + length str + 1)"
    by (simp add: decodeType_dispatch [OF shape])
  then show ?thesis
    unfolding data_def [symmetric] by (simp add: Decode_bind_mode [OF shape])
qed

lemma Decode_float_token:
  assumes "CHR ''z'' \<notin> set str" and "str \<noteq> []" and "parseFloat L str = Some f"
  shows "Decode (Suc n) L (''ut:f:'' @ str @ CHR ''z'' # rest) (GPtr t (Some (GFloat g)))
     = Returned (GPtr t (Some (GFloat f)))"
proof -
  define data where "data = ''ut:f:'' @ str @ CHR ''z'' # rest"
  have shape: "data = ''ut:'' @ ''f'' @ CHR '':'' # (str @ CHR ''z'' # rest)" by (simp add: data_def)
  have "floatDecoder L data ''f'' (GPtr t (Some (GFloat g))) 5
          = Ok (GPtr t (Some (GFloat f)), 5 + length str + 1)"
    unfolding data_def by (rule floatDecoder_ok [OF assms]) simp
  then have "decodeType (exec n L data) L data (GPtr t (Some (GFloat g))) 3
          = Ok (GPtr t (Some (GFloat f)), 5 + length str + 1)"
    by (simp add: decodeType_dispatch [OF shape])
  then show ?thesis
    unfolding data_def [symmetric] by (simp add: Decode_bind_mode [OF shape])
qed

lemma Decode_udata_token:
  assumes "int (length b64) < 2 ^ 63" and "b64decode b64 = Some s"
  shows "Decode (Suc n) L (''ut:u'' @ show_nat (length b64) @ '':'' @ b64 @ rest)
            (GPtr t (Some (GString s')))
     = Returned (GPtr t (Some (GString s)))"
proof -
  define key where "key = CHR ''u'' # show_nat (length b64)"
  define data where "data = ''ut:u'' @ show_nat (length b64) @ '':'' @ b64 @ rest"
  have shape: "data = ''ut:'' @ key @ CHR '':'' # (b64 @ rest)"
    by (simp add: data_def key_def)
  have k1: "CHR '':'' \<notin> set key"
    using show_nat_not_in [of "CHR '':''" "length b64"] by (simp add: key_def)
  have k2: "key \<noteq> []" by (simp add: key_def)
  have k3: "hd key = CHR ''u''" by (simp add: key_def)
  have p: "ParseInt0 (drop 1 key) = Some (int (length b64))"
    using ParseInt0_show_nat [OF assms(1)] by (simp add: key_def)
  have shape2: "data = (''ut:'' @ key @ '':'') @ b64 @ rest"
    by (simp add: shape)
  have "unicodeDecoder data key (GPtr t (Some (GString s'))) (4 + length key)
          = Ok (GPtr t (Some (GString s)), 4 + length key + length b64)"
    unfolding shape2 by (rule unicodeDecoder_ok [OF p assms(2)]) simp
  then have "decodeType (exec n L data) L data (GPtr t (Some (GString s'))) 3
          = Ok (GPtr t (Some (GString s)), 4 + length key + length b64)"
    by (simp add: decodeType_dispatch [OF shape k1 k2] k3 Let_def)
  then show ?thesis
    unfolding data_def [symmetric] by (simp add: Decode_bind_mode [OF shape k1 k2])
qed

text \<open>
  Claim C1: for every supported scalar \<open>x\<close> (a boolean, a signed integer, a float that
  is not whole, a text of any bytes), decoding the bytes of \<open>Encode x\<close> into a
  destination of the same shape gives \<open>x\<close>. The encoder is the one of \<open>Encode\<close> with
  the registry (\<open>V0\<close>); the destination is a pointer to any value \<open>y\<close> of the kind of
  \<open>x\<close>; the budget is any positive number.
\<close>

theorem scalar_round_trip:
  assumes "supported_scalar L x" and "kind_of y = kind_of x"
  shows "\<exists>bytes. Encode L V0 x = Returned bytes \<and>
           Decode (Suc n) L bytes (GPtr t (Some y)) = Returned (GPtr t (Some x))"
proof (cases x)
  case (GBool b)
  with assms(2) obtain b' where y: "y = GBool b'" by (cases y) auto
  have "Encode L V0 x = Returned (''ut:b:'' @ (if b then CHR ''1'' else CHR ''0'') # [])"
    by (simp add: GBool Encode_def Encoder_Encode_def)
  moreover have "Decode (Suc n) L (''ut:b:'' @ (if b then CHR ''1'' else CHR ''0'') # []) (GPtr t (Some y))
                   = Returned (GPtr t (Some x))"
    unfolding y Decode_bool_token by (simp add: GBool)
  ultimately show ?thesis by blast
next
  case (GInt i)
  with assms(2) obtain j where y: "y = GInt j" by (cases y) auto
  from assms(1) have r: "- (2 ^ 63) \<le> i" "i < 2 ^ 63" by (simp_all add: GInt)
  have e: "CHR ''e'' \<notin> set (show_int i)" by (rule show_int_not_in) simp
  have "Encode L V0 x = Returned (''ut:i:'' @ show_int i @ CHR ''e'' # [])"
    by (simp add: GInt Encode_def Encoder_Encode_def intEncoder_def)
  moreover have "Decode (Suc n) L (''ut:i:'' @ show_int i @ CHR ''e'' # []) (GPtr t (Some y))
                   = Returned (GPtr t (Some x))"
    unfolding y GInt by (rule Decode_int_token [OF e show_int_nonempty ParseInt0_show_int [OF r]])
  ultimately show ?thesis by blast
next
  case (GFloat f)
  with assms(2) obtain g where y: "y = GFloat g" by (cases y) auto
  from assms(1) have h: "\<not> isWhole L f" "fmtFloat L f \<noteq> []" "CHR ''z'' \<notin> set (fmtFloat L f)"
    "parseFloat L (fmtFloat L f) = Some f" by (simp_all add: GFloat)
  have "Encode L V0 x = Returned (''ut:f:'' @ fmtFloat L f @ CHR ''z'' # [])"
    using h(1) by (simp add: GFloat Encode_def Encoder_Encode_def)
  moreover have "Decode (Suc n) L (''ut:f:'' @ fmtFloat L f @ CHR ''z'' # []) (GPtr t (Some y))
                   = Returned (GPtr t (Some x))"
    unfolding y GFloat by (rule Decode_float_token [OF h(3) h(2) h(4)])
  ultimately show ?thesis by blast
next
  case (GString s)
  with assms(2) obtain s' where y: "y = GString s'" by (cases y) auto
  from assms(1) have l: "int (length (b64encode s)) < 2 ^ 63" by (simp add: GString)
  have "Encode L V0 x
          = Returned (''ut:u'' @ show_nat (length (b64encode s)) @ '':'' @ b64encode s @ [])"
    by (simp add: GString Encode_def Encoder_Encode_def stringEncoder_def Let_def)
  moreover have "Decode (Suc n) L (''ut:u'' @ show_nat (length (b64encode s)) @ '':'' @ b64encode s @ [])
                    (GPtr t (Some y)) = Returned (GPtr t (Some x))"
    unfolding y GString by (rule Decode_udata_token [OF l b64decode_b64encode])
  ultimately show ?thesis by blast
qed (use assms(1) in simp_all)

theorem scalar_round_trip_witness:
  "supported_scalar halves (GFloat 3) \<and> kind_of (GFloat 0 :: int gval) = kind_of (GFloat 3 :: int gval) \<and>
   (\<exists>bytes. Encode halves V0 (GFloat 3) = Returned bytes \<and>
      Decode (Suc 0) halves bytes (GPtr TFloat (Some (GFloat 0))) = Returned (GPtr TFloat (Some (GFloat 3)))) \<and>
   supported_scalar halves (GString [CHR ''h'', CHR 0xC3, CHR 0xA9]) \<and>
   (\<exists>bytes. Encode halves V0 (GString [CHR ''h'', CHR 0xC3, CHR 0xA9]) = Returned bytes \<and>
      Decode (Suc 0) halves bytes (GPtr TString (Some (GString [])))
        = Returned (GPtr TString (Some (GString [CHR ''h'', CHR 0xC3, CHR 0xA9]))))"
proof -
  have f1: "supported_scalar halves (GFloat 3)" by code_simp
  have f2: "kind_of (GFloat 0 :: int gval) = kind_of (GFloat 3 :: int gval)" by simp
  have s1: "supported_scalar halves (GString [CHR ''h'', CHR 0xC3, CHR 0xA9])" by simp
  have s2: "kind_of (GString [] :: int gval) = kind_of (GString [CHR ''h'', CHR 0xC3, CHR 0xA9] :: int gval)"
    by simp
  show ?thesis
    using f1 f2 s1 scalar_round_trip [OF f1 f2, of 0 TFloat] scalar_round_trip [OF s1 s2, of 0 TString]
    by blast
qed

section \<open>Properties of the decoder\<close>

lemma Decode_no_prefix:
  "take 3 data \<noteq> ''ut:'' \<Longrightarrow> Decode n L data v = Failed (DecodeError ''invalid utcode'')"
  by (auto simp add: Decode_def Decoder_Decode_def readAndMatch_def)

text \<open>
  Claim C3: a buffer without the prefix \<open>ut:\<close>, and a buffer with a list or a
  dictionary that is not closed before the end of the input, make \<open>Decode\<close> return
  an error without crashing. Without the prefix \<open>Decode\<close> returns an error
  (\<open>Decode_no_prefix\<close>). With an open list or dictionary, the loop asks \<open>peek\<close> for
  the byte at the end of the buffer: Go panics with a run-time error, and the deferred
  function of \<open>Decode\<close> raises a run-time error again. The destinations are
  \<^verbatim>\<open>&[]string{}\<close> and \<^verbatim>\<open>map[string]interface{}{}\<close>.
\<close>

theorem unterminated_container_crashes:
  "Decode (Suc n) L ''ut:l:'' (GPtr (TSlice TString) (Some (GSlice TString (Some []))))
     = Crashed (PRuntime ''index out of range'') \<and>
   Decode (Suc n) L ''ut:d:'' (GMap TString TIface (Some []))
     = Crashed (PRuntime ''index out of range'')"
  by (simp add: Decode_def Decoder_Decode_def readAndMatch_def decodeType_def readUntil_def read_def
      listDecoder_def isValidList_def fillSlice_def fillSliceLoop_def dictDecoder_def fillMap_def peek_def)

text \<open>
  Decoding a dictionary into a pointer to a struct never reaches \<open>fillStruct\<close>:
  \<open>dictDecoder\<close> follows the pointer and asks the struct \<^verbatim>\<open>IsNil()\<close>, which panics for
  a struct.
\<close>

lemma Decode_dict_into_struct:
  "Decode (Suc (Suc n)) L (''ut:d:'' @ rest) (GPtr t (Some (GStruct sname flds)))
     = Failed (ValueError ''reflect.Value.IsNil'' KStruct)"
  by (simp add: Decode_def Decoder_Decode_def readAndMatch_def decodeType_def readUntil_def read_def
      dictDecoder_def)

text \<open>
  Claim C5: a key of the dictionary that is not a wire key of the destination record is
  skipped with its value, the pairs after it are decoded into their fields, and no error
  is returned. The document is \<open>d:k3:fooi:5ek4:nameu4:Zm9ve\<close> and the destination a
  pointer to \<^verbatim>\<open>struct { Name string }\<close>. \<open>Decode\<close> returns an error, as for every
  struct. \<open>fillStruct\<close> itself, run on the struct at the first key, skips the key
  \<open>foo\<close> and not its value: it takes \<open>i\<close> for the next key token, stops, and leaves
  \<open>Name\<close> empty.
\<close>

theorem fillStruct_unknown_key_not_skipped:
  "Decode 9 L ''ut:d:k3:fooi:5ek4:nameu4:Zm9ve''
      (GPtr (TStruct ''P'' [(''Name'', [], True, TString)])
            (Some (GStruct ''P'' [(''Name'', [], True, GString [])])))
     = Failed (ValueError ''reflect.Value.IsNil'' KStruct) \<and>
   exec 9 L ''ut:d:k3:fooi:5ek4:nameu4:Zm9ve''
      (CFillStruct True (GStruct ''P'' [(''Name'', [], True, GString [])])) 5
     = Ok (GStruct ''P'' [(''Name'', [], True, GString [])], 12)"
  by (simp add: Decode_def Decoder_Decode_def readAndMatch_def decodeType_def readUntil_def read_def
      dictDecoder_def fillStruct_def peek_def dictKey_def parseInt_def ParseInt0_def ParseUint0_def
      digit_val_def lower_def structFieldsMap_def toLower1_def eval_nat_numeral Let_def)

text \<open>With the key \<open>name\<close> alone, \<open>fillStruct\<close> sets the field.\<close>

lemma fillStruct_known_key:
  "exec 9 halves ''ut:d:k4:nameu4:Zm9ve''
      (CFillStruct True (GStruct ''P'' [(''Name'', [], True, GString [])])) 5
     = Ok (GStruct ''P'' [(''Name'', [], True, GString ''foo'')], 19)"
  by code_simp

lemma SetInt_float: "SetInt (GFloat y, a) i \<noteq> Ok r"
  by (simp add: SetInt_def mustBeAssignable_def)

lemma intDecoder_float: "intDecoder data key (GPtr t (Some (GFloat y))) off \<noteq> Ok r"
  by (auto simp add: intDecoder_def bind_eq_Ok SetInt_float split: option.splits)

text \<open>No document that begins with an integer token is accepted for a float.\<close>

lemma Decode_int_token_into_float:
  "Decode n L (''ut:i:'' @ rest) (GPtr t (Some (GFloat y))) \<noteq> Returned v'"
proof (cases n)
  case 0
  then show ?thesis
    by (simp add: Decode_def Decoder_Decode_def readAndMatch_def)
next
  case (Suc m)
  have ru: "readUntil (''ut:i:'' @ rest) 3 (CHR '':'') = Some (''i'', 4)"
    by (simp add: readUntil_def)
  show ?thesis
    using intDecoder_float [of "''ut:i:'' @ rest" "''i''" t y 5]
    by (simp add: Suc Decode_def Decoder_Decode_def readAndMatch_def decodeType_def
        ru [simplified] read_def bind_eq_Ok Let_def)
qed

text \<open>
  Claim C6: a whole floating point number is accepted in both wire forms, \<open>f:...z\<close> and
  \<open>i:...e\<close>, for a destination of type float, with the same value. \<open>intDecoder\<close>
  stores with \<^verbatim>\<open>SetInt\<close>, which panics on a float: the integer form \<open>i:3e\<close> of
  \<open>3.0\<close> is rejected with an error for a \<^verbatim>\<open>*float64\<close>.
\<close>

theorem intDecoder_rejects_float_destination:
  "Decode (Suc n) L ''ut:i:3e'' (GPtr TFloat (Some (GFloat x)))
     = Failed (ValueError ''reflect.Value.SetInt'' KFloat)"
  by (simp add: Decode_def Decoder_Decode_def readAndMatch_def decodeType_def readUntil_def read_def
      intDecoder_def parseInt_def ParseInt0_def ParseUint0_def digit_val_def lower_def SetInt_def
      mustBeAssignable_def)

text \<open>With the untyped nil or a nil pointer, slice, map or interface, \<open>Decode\<close> never succeeds.\<close>

lemma Decode_nil_destination_never_succeeds:
  assumes "v = GNil \<or> IsNil v = Ok True"
  shows "Decode n L data v \<noteq> Returned v'"
proof -
  have s: "Set (v, False) val \<noteq> Ok r" for val r
    by (simp add: Set_def mustBeAssignable_def)
  show ?thesis
    using assms s
    by (auto simp add: Decode_def Decoder_Decode_def readAndMatch_def bind_eq_Ok
        split: if_splits prod.splits)
qed

text \<open>
  Claim C8: with a nil or empty destination, \<open>Decode\<close> succeeds on every well-formed
  document and assigns a dynamic value through the destination. For the untyped nil
  \<^verbatim>\<open>IsNil\<close> panics on the zero Value; for a nil pointer the value is created and then
  \<^verbatim>\<open>Set\<close> panics, since \<^verbatim>\<open>reflect.ValueOf(v)\<close> is not addressable; for a pointer to an
  empty \<^verbatim>\<open>interface{}\<close> a scalar cannot be stored. The document is \<open>i:5e\<close>.
\<close>

theorem Decode_nil_destination_fails:
  "Decode (Suc n) L ''ut:i:5e'' GNil = Failed (ValueError ''reflect.Value.IsNil'' KInvalid) \<and>
   Decode (Suc n) L ''ut:i:5e'' (GPtr TIface None)
     = Crashed (PString ''reflect: reflect.Value.Set using unaddressable value'') \<and>
   Decode (Suc n) L ''ut:i:5e'' (GPtr TIface (Some (GIface None)))
     = Failed (ValueError ''reflect.Value.SetInt'' KInterface)"
  by (simp add: Decode_def Decoder_Decode_def readAndMatch_def decodeType_def decodeTypeAndCreate_def
      readUntil_def read_def intDecoder_def parseInt_def ParseInt0_def ParseUint0_def digit_val_def
      lower_def SetInt_def Set_def mustBeAssignable_def)

section \<open>Tokens of the wire grammar\<close>

lemma digits_not_in:
  assumes "digits s" and "(of_char c :: nat) < 48 \<or> 57 < (of_char c :: nat)"
  shows "c \<notin> set s"
  using assms by (auto simp add: digits_def list_all_iff)

lemma tag_nonempty: "tag w \<noteq> []"
  by (cases w) simp_all

lemma tag_no_colon: "CHR '':'' \<notin> set (tag w)"
  using show_nat_not_in [of "CHR '':''"] by (cases w) simp_all

lemma hd_tag:
  "hd (tag w) = (case w of WAbsent \<Rightarrow> CHR ''n'' | WBool b \<Rightarrow> CHR ''b'' | WInt neg ds \<Rightarrow> CHR ''i''
     | WFloat a b \<Rightarrow> CHR ''f'' | WText s \<Rightarrow> CHR ''s'' | WUdata p \<Rightarrow> CHR ''u''
     | WDict kvs \<Rightarrow> CHR ''d'' | WList ws \<Rightarrow> CHR ''l'')"
  by (cases w) simp_all

lemma hd_render: "hd (render w) = hd (tag w)"
  using tag_nonempty [of w] by (simp add: render_def)

lemma hd_render_not_e: "hd (render w) \<noteq> CHR ''e''"
  by (cases w) (simp_all add: hd_render)

lemma render_nonempty: "render w \<noteq> []"
  by (simp add: render_def)

lemma render_list_Cons: "render_list (w # ws) = render w @ render_list ws"
  by (simp add: render_def)

lemma render_pairs_Cons:
  "render_pairs ((k, w) # kvs) = CHR ''k'' # show_nat (length k) @ '':'' @ k @ render w @ render_pairs kvs"
  by (simp add: render_def)

declare render_pairs.simps(2) [simp del] render_list.simps(2) [simp del]

declare render_list_Cons [simp] render_pairs_Cons [simp]

text \<open>The length of a text that is too long for an \<^verbatim>\<open>int\<close> is rejected.\<close>

lemma ParseInt0_show_nat_iff:
  "ParseInt0 (show_nat n) = (if int n < 2 ^ 63 then Some (int n) else None)"
proof (cases "int n < 2 ^ 63")
  case True
  then show ?thesis by (simp add: ParseInt0_show_nat)
next
  case False
  have h: "hd (show_nat n) \<in> set (show_nat n)"
    using show_nat_nonempty [of n] by simp
  have "CHR ''-'' \<notin> set (show_nat n)" "CHR ''+'' \<notin> set (show_nat n)"
    by (rule show_nat_not_in, simp)+
  with h have s: "hd (show_nat n) \<noteq> CHR ''-''" "hd (show_nat n) \<noteq> CHR ''+''"
    by metis+
  have "ParseUint0 (show_nat n) = None \<or> ParseUint0 (show_nat n) = Some (int n)"
  proof (cases "int n < 2 ^ 64")
    case True
    then show ?thesis by (simp add: ParseUint0_show_nat)
  next
    case big: False
    then have n0: "n \<noteq> 0" by auto
    then obtain d where d: "0 < d" "d < 10" "hd (show_nat n) = digit_char d"
      using hd_show_nat [of n] by auto
    have "digit_char d \<noteq> CHR ''0''"
      using d of_char_digit_char [of d] by auto
    with big d show_nat_nonempty [of n] show ?thesis
      by (simp add: ParseUint0_def parse_digits_show_nat)
  qed
  with False s show_nat_nonempty [of n] show ?thesis
    by (auto simp add: ParseInt0_def)
qed

lemma parseInt_length:
  "parseInt (show_nat n) = Ok len \<Longrightarrow> len = int n"
  by (simp add: parseInt_def ParseInt0_show_nat_iff split: if_splits)

section \<open>The decoders on a token, whatever follows it\<close>

text \<open>
  On a buffer \<open>pre @ token @ rest\<close>, at the offset of the token, each decoder of a
  scalar is a function of the token alone.
\<close>

lemma nilDecoder_shape:
  assumes "off = length pre"
  shows "nilDecoder (pre @ c # rest) key v off = Ok (v, off + 1)"
  using assms read_one [of pre c rest] by (simp add: nilDecoder_def)

lemma boolDecoder_shape:
  assumes "off = length pre"
  shows "boolDecoder (pre @ c # rest) key v off =
           bind (Elem v) (\<lambda>x. bind (SetBool x (c \<noteq> CHR ''0'')) (\<lambda>x'. Ok (with_elem v x', off + 1)))"
  using assms peek_at [of pre c rest] read_one [of pre c rest]
  by (simp add: boolDecoder_def)

lemma intDecoder_shape:
  assumes "CHR ''e'' \<notin> set str" and "str \<noteq> []" and "off = length pre"
  shows "intDecoder (pre @ str @ CHR ''e'' # rest) key v off =
           bind (Elem v) (\<lambda>x. bind (parseInt str) (\<lambda>i. bind (SetInt x i)
             (\<lambda>x'. Ok (with_elem v x', off + length str + 1))))"
  using assms readUntil_found [of "CHR ''e''" str pre rest]
    read_one [of "pre @ str" "CHR ''e''" rest]
  by (simp add: intDecoder_def)

lemma floatDecoder_shape:
  assumes "CHR ''z'' \<notin> set str" and "str \<noteq> []" and "off = length pre"
  shows "floatDecoder L (pre @ str @ CHR ''z'' # rest) key v off =
           (case parseFloat L str of
              None \<Rightarrow> Panic (PError (NumError ''ParseFloat'' str))
            | Some f \<Rightarrow> bind (Elem v) (\<lambda>x. bind (SetFloat x f)
                (\<lambda>x'. Ok (with_elem v x', off + length str + 1))))"
  using assms readUntil_found [of "CHR ''z''" str pre rest]
    read_one [of "pre @ str" "CHR ''z''" rest]
  by (simp add: floatDecoder_def split: option.splits)

lemma stringDecoder_shape:
  assumes "drop 1 key = show_nat (length s)" and "off = length pre"
  shows "stringDecoder (pre @ s @ rest) key v off =
           bind (parseInt (show_nat (length s))) (\<lambda>len. bind (Elem v) (\<lambda>x. bind (SetString x s)
             (\<lambda>x'. Ok (with_elem v x', off + length s))))"
proof (cases "parseInt (show_nat (length s))")
  case (Ok len)
  then have "len = int (length s)" by (rule parseInt_length)
  with Ok assms read_exact [of pre s rest] show ?thesis
    by (simp add: stringDecoder_def)
qed (simp_all add: stringDecoder_def assms(1) [simplified])

lemma unicodeDecoder_shape:
  assumes "drop 1 key = show_nat (length p)" and "off = length pre"
  shows "unicodeDecoder (pre @ p @ rest) key v off =
           bind (parseInt (show_nat (length p))) (\<lambda>len.
             (case b64decode p of
                None \<Rightarrow> Panic (PError CorruptInputError)
              | Some bytes \<Rightarrow> bind (Elem v) (\<lambda>x. bind (SetString x bytes)
                  (\<lambda>x'. Ok (with_elem v x', off + length p)))))"
proof (cases "parseInt (show_nat (length p))")
  case (Ok len)
  then have "len = int (length p)" by (rule parseInt_length)
  with Ok assms read_exact [of pre p rest] show ?thesis
    by (simp add: unicodeDecoder_def split: option.splits)
qed (simp_all add: unicodeDecoder_def assms(1) [simplified])

lemma dictKey_shape:
  assumes "off = length pre"
  shows "dictKey (pre @ CHR ''k'' # show_nat (length k) @ CHR '':'' # k @ rest) off =
           bind (parseInt (show_nat (length k)))
             (\<lambda>len. Ok (Some k, off + length (show_nat (length k)) + 2 + length k))"
proof -
  let ?key = "CHR ''k'' # show_nat (length k)"
  let ?data = "pre @ CHR ''k'' # show_nat (length k) @ CHR '':'' # k @ rest"
  have nc: "CHR '':'' \<notin> set ?key"
    using show_nat_not_in [of "CHR '':''" "length k"] by simp
  have ru: "readUntil ?data off (CHR '':'') = Some (?key, off + length ?key)"
    using readUntil_found [OF nc, of pre "k @ rest"] assms by simp
  have rd: "read ?data (off + length ?key) 1 = Ok ('':'', off + length ?key + 1)"
    using read_one [of "pre @ ?key" "CHR '':''" "k @ rest"] assms by simp
  have rk: "read ?data (off + length ?key + 1) (int (length k))
              = Ok (k, off + length ?key + 1 + length k)"
    using read_exact [of "pre @ ?key @ '':''" k rest] assms by simp
  show ?thesis
  proof (cases "parseInt (show_nat (length k))")
    case (Ok len)
    then have "len = int (length k)" by (rule parseInt_length)
    with Ok ru rd rk show ?thesis
      by (simp add: dictKey_def)
  next
    case (Panic p)
    with ru rd show ?thesis by (simp add: dictKey_def)
  next
    case OutOfFuel
    with ru rd show ?thesis by (simp add: dictKey_def)
  qed
qed

text \<open>\<open>decodeType\<close> and \<open>decodeTypeAndCreate\<close> at a token.\<close>

lemma decodeType_at:
  assumes "CHR '':'' \<notin> set key" and "key \<noteq> []" and "off = length pre"
    and "data = pre @ key @ CHR '':'' # body" and "off2 = off + length key + 1"
  shows "decodeType call L data v off =
     (let t = hd key
      in if t = CHR ''n'' then nilDecoder data key v off2
         else if t = CHR ''b'' then boolDecoder data key v off2
         else if t = CHR ''i'' then intDecoder data key v off2
         else if t = CHR ''f'' then floatDecoder L data key v off2
         else if t = CHR ''s'' then stringDecoder data key v off2
         else if t = CHR ''u'' then unicodeDecoder data key v off2
         else if t = CHR ''d'' then dictDecoder call L data key False v off2
         else if t = CHR ''l'' then listDecoder call data key v off2
         else if t = CHR ''c'' then customDecoder data key v off2
         else invalidType data off2)"
proof -
  define off1 where "off1 = off + length key"
  have a: "readUntil data off (CHR '':'') = Some (key, off1)"
    and b: "read data off1 1 = Ok ('':'', off2)"
    using decodeType_token [OF assms(1,2,3), of body] assms(4,5) by (simp_all add: off1_def)
  have c: "off < length data" using assms(2,3,4) by simp
  show ?thesis
    using c by (simp add: decodeType_def a b Let_def)
qed

lemma decodeTypeAndCreate_at:
  assumes "CHR '':'' \<notin> set key" and "key \<noteq> []" and "off = length pre"
    and "data = pre @ key @ CHR '':'' # body" and "off2 = off + length key + 1"
  shows "decodeTypeAndCreate call L data off =
     (let t = hd key
      in if t = CHR ''n'' then nilDecoder data key GNil off2
         else if t = CHR ''b'' then boolDecoder data key (GPtr TBool (Some (GBool False))) off2
         else if t = CHR ''i'' then intDecoder data key (GPtr TInt (Some (GInt 0))) off2
         else if t = CHR ''f'' then floatDecoder L data key (GPtr TFloat (Some (GFloat (fzero L)))) off2
         else if t = CHR ''s'' then stringDecoder data key (GPtr TString (Some (GString []))) off2
         else if t = CHR ''u'' then unicodeDecoder data key (GPtr TString (Some (GString []))) off2
         else if t = CHR ''d'' then
           dictDecoder call L data key False
             (GPtr (TMap TString TIface) (Some (GMap TString TIface (Some [])))) off2
         else if t = CHR ''l'' then
           listDecoder call data key (GPtr (TSlice TIface) (Some (GSlice TIface (Some [])))) off2
         else if t = CHR ''c'' then Panic (PError (DecodeError ''custom type must be top-level''))
         else invalidType data off2)"
proof -
  define off1 where "off1 = off + length key"
  have a: "readUntil data off (CHR '':'') = Some (key, off1)"
    and b: "read data off1 1 = Ok ('':'', off2)"
    using decodeType_token [OF assms(1,2,3), of body] assms(4,5) by (simp_all add: off1_def)
  have c: "off < length data" using assms(2,3,4) by simp
  show ?thesis
    using c by (simp add: decodeTypeAndCreate_def a b Let_def)
qed

section \<open>The tag \<open>c\<close>\<close>









section \<open>The loops on two buffers\<close>

lemma good_createD:
  assumes "good_create call1 call2 data1 data2" and "wf w"
    and "data1 = pre @ render w @ s1" and "data2 = pre @ render w @ s2" and "off = length pre"
    and "call1 CDecodeTypeAndCreate off = Ok (res, off')"
  shows "call2 CDecodeTypeAndCreate off = Ok (res, off')" and "off' = off + length (render w)"
  using assms unfolding good_create_def by blast+

lemma good_bindD:
  assumes "good_bind call1 call2 data1 data2" and "wf w"
    and "data1 = pre @ render w @ s1" and "data2 = pre @ render w @ s2" and "off = length pre"
    and "call1 (CDecodeType v) off = Ok (res, off')"
  shows "call2 (CDecodeType v) off = Ok (res, off')" and "tracked_bind w v off off'"
  using assms unfolding good_bind_def by blast+

lemma good_dictD:
  assumes "good_dict call1 call2 data1 data2" and "wf_pairs kvs"
    and "data1 = pre @ render_pairs kvs @ CHR ''e'' # s1"
    and "data2 = pre @ render_pairs kvs @ CHR ''e'' # s2" and "off = length pre"
    and "call1 (CDictDecoder addr v) off = Ok (res, off')"
  shows "call2 (CDictDecoder addr v) off = Ok (res, off')" and "tracked_dict kvs off off'"
    and "map_dest v \<Longrightarrow> off' = off + length (render_pairs kvs) + 1"
  using assms unfolding good_dict_def by blast+

lemma good_fillmapD:
  assumes "good_fillmap call1 call2 data1 data2" and "wf_pairs kvs"
    and "data1 = pre @ render_pairs kvs @ CHR ''e'' # s1"
    and "data2 = pre @ render_pairs kvs @ CHR ''e'' # s2" and "off = length pre"
    and "call1 (CFillMap out) off = Ok (res, off')"
  shows "call2 (CFillMap out) off = Ok (res, off')" and "off' = off + length (render_pairs kvs)"
  using assms unfolding good_fillmap_def by blast+

lemma good_fillsliceD:
  assumes "good_fillslice call1 call2 data1 data2" and "wf_list ws"
    and "data1 = pre @ render_list ws @ CHR ''e'' # s1"
    and "data2 = pre @ render_list ws @ CHR ''e'' # s2" and "off = length pre"
    and "call1 (CFillSlice v len i) off = Ok (res, off')"
  shows "call2 (CFillSlice v len i) off = Ok (res, off')" and "off' = off + length (render_list ws)"
  using assms unfolding good_fillslice_def by blast+

lemma stuckD:
  assumes "stuck call1 data1" and "data1 = pre @ show_nat m @ CHR '':'' # s" and "off = length pre"
  shows "call1 CDecodeTypeAndCreate off \<noteq> Ok r" and "call1 (CDecodeType v) off \<noteq> Ok r"
    and "call1 (CFillSlice v len i) off \<noteq> Ok r"
  using assms unfolding stuck_def by blast+

lemma fillMap_rel:
  assumes gc: "good_create call1 call2 data1 data2" and gm: "good_fillmap call1 call2 data1 data2"
    and wf: "wf_pairs kvs"
    and d1: "data1 = pre @ render_pairs kvs @ CHR ''e'' # s1"
    and d2: "data2 = pre @ render_pairs kvs @ CHR ''e'' # s2"
    and off: "off = length pre"
    and ok: "fillMap call1 data1 out off = Ok (res, off')"
  shows "fillMap call2 data2 out off = Ok (res, off') \<and> off' = off + length (render_pairs kvs)"
proof (cases kvs)
  case Nil
  have p1: "peek data1 off = Ok (CHR ''e'')" and p2: "peek data2 off = Ok (CHR ''e'')"
    using peek_at [of pre "CHR ''e''"] d1 d2 off Nil by simp_all
  from ok p1 have "res = GMap TString TIface (Some out)" "off' = off"
    by (simp_all add: fillMap_def)
  with p2 Nil show ?thesis by (simp add: fillMap_def)
next
  case (Cons kw kvs')
  obtain k w where kw: "kw = (k, w)" by (cases kw)
  define pre' where "pre' = pre @ CHR ''k'' # show_nat (length k) @ CHR '':'' # k"
  define offk where "offk = off + length (show_nat (length k)) + 2 + length k"
  define t1 where "t1 = render_pairs kvs' @ CHR ''e'' # s1"
  define t2 where "t2 = render_pairs kvs' @ CHR ''e'' # s2"
  have wfw: "wf w" and wfk: "wf_pairs kvs'" using wf Cons kw by simp_all
  have s1: "data1 = pre @ CHR ''k'' # show_nat (length k) @ CHR '':'' # k @ (render w @ t1)"
    and s2: "data2 = pre @ CHR ''k'' # show_nat (length k) @ CHR '':'' # k @ (render w @ t2)"
    using d1 d2 Cons kw by (simp_all add: render_pairs_Cons t1_def t2_def)
  have p1: "peek data1 off = Ok (CHR ''k'')" and p2: "peek data2 off = Ok (CHR ''k'')"
    using peek_at [of pre "CHR ''k''"] s1 s2 off by simp_all
  have dk1: "dictKey data1 off = bind (parseInt (show_nat (length k))) (\<lambda>len. Ok (Some k, offk))"
    and dk2: "dictKey data2 off = bind (parseInt (show_nat (length k))) (\<lambda>len. Ok (Some k, offk))"
    unfolding s1 s2 offk_def by (rule dictKey_shape [OF off])+
  have q1: "data1 = pre' @ render w @ t1" and q2: "data2 = pre' @ render w @ t2"
    using s1 s2 by (simp_all add: pre'_def)
  have lp: "offk = length pre'" by (simp add: offk_def pre'_def off)
  from ok p1 dk1 obtain len val off2 where
    pi: "parseInt (show_nat (length k)) = Ok len"
    and c1: "call1 CDecodeTypeAndCreate offk = Ok (val, off2)"
    and r1: "(if val \<noteq> GNil
              then bind (Elem val) (\<lambda>x. call1 (CFillMap (map_put out k (GIface (Some (fst x))))) off2)
              else call1 (CFillMap (map_put out k (GIface None))) off2) = Ok (res, off')"
    by (auto simp add: fillMap_def bind_eq_Ok)
  have c2: "call2 CDecodeTypeAndCreate offk = Ok (val, off2)"
    and o2: "off2 = offk + length (render w)"
    using good_createD [OF gc wfw q1 q2 lp c1] by simp_all
  define pre'' where "pre'' = pre' @ render w"
  have u1: "data1 = pre'' @ render_pairs kvs' @ CHR ''e'' # s1"
    and u2: "data2 = pre'' @ render_pairs kvs' @ CHR ''e'' # s2"
    using q1 q2 by (simp_all add: pre''_def t1_def t2_def)
  have lp2: "off2 = length pre''" using o2 lp by (simp add: pre''_def)
  have len_all: "off2 + length (render_pairs kvs') = off + length (render_pairs kvs)"
    using o2 Cons kw by (simp add: render_pairs_Cons offk_def)
  show ?thesis
  proof (cases "val = GNil")
    case True
    with r1 have f1: "call1 (CFillMap (map_put out k (GIface None))) off2 = Ok (res, off')" by simp
    from good_fillmapD [OF gm wfk u1 u2 lp2 f1] len_all True p2 dk2 pi c2
    show ?thesis by (simp add: fillMap_def)
  next
    case False
    with r1 obtain x where x: "Elem val = Ok x"
      and f1: "call1 (CFillMap (map_put out k (GIface (Some (fst x))))) off2 = Ok (res, off')"
      by (auto simp add: bind_eq_Ok)
    from good_fillmapD [OF gm wfk u1 u2 lp2 f1] len_all False p2 dk2 pi c2 x
    show ?thesis by (simp add: fillMap_def)
  qed
qed

lemma peek_render:
  assumes "data = pre @ render w @ t" and "off = length pre"
  shows "peek data off = Ok (hd (render w))"
proof -
  obtain c cs where "render w = c # cs"
    using render_nonempty [of w] by (cases "render w") auto
  with assms peek_at [of pre c "cs @ t"] show ?thesis by simp
qed

lemma render_dict_nonempty:
  "render (WDict ((k, w0) # kvs0)) @ t
     = ''d:k'' @ show_nat (length k) @ CHR '':'' # (k @ render w0 @ render_pairs kvs0 @ ''e'' @ t)"
  by (simp add: render_def)

lemma fillSliceLoop_rel:
  assumes gb: "good_bind call1 call2 data1 data2" and gc: "good_create call1 call2 data1 data2"
    and gs: "good_fillslice call1 call2 data1 data2" and st: "stuck call1 data1"
    and wf: "wf_list ws"
    and d1: "data1 = pre @ render_list ws @ CHR ''e'' # s1"
    and d2: "data2 = pre @ render_list ws @ CHR ''e'' # s2"
    and off: "off = length pre"
    and ok: "fillSliceLoop call1 data1 v len i off = Ok (res, off')"
  shows "fillSliceLoop call2 data2 v len i off = Ok (res, off') \<and> off' = off + length (render_list ws)"
proof (cases ws)
  case Nil
  have p1: "peek data1 off = Ok (CHR ''e'')" and p2: "peek data2 off = Ok (CHR ''e'')"
    using peek_at [of pre "CHR ''e''"] d1 d2 off Nil by simp_all
  from ok p1 have "res = v" "off' = off"
    by (simp_all add: fillSliceLoop_def)
  with p2 Nil show ?thesis by (simp add: fillSliceLoop_def)
next
  case (Cons w ws')
  define t1 where "t1 = render_list ws' @ CHR ''e'' # s1"
  define t2 where "t2 = render_list ws' @ CHR ''e'' # s2"
  define c where "c = hd (render w)"
  have wfw: "wf w" and wfs: "wf_list ws'" using wf Cons by simp_all
  have q1: "data1 = pre @ render w @ t1" and q2: "data2 = pre @ render w @ t2"
    using d1 d2 Cons by (simp_all add: t1_def t2_def)
  have p1: "peek data1 off = Ok c" and p2: "peek data2 off = Ok c"
    unfolding c_def by (rule peek_render [OF q1 off], rule peek_render [OF q2 off])
  have ce: "c \<noteq> CHR ''e''" unfolding c_def by (rule hd_render_not_e)
  define pre'' where "pre'' = pre @ render w"
  have u1: "data1 = pre'' @ render_list ws' @ CHR ''e'' # s1"
    and u2: "data2 = pre'' @ render_list ws' @ CHR ''e'' # s2"
    using q1 q2 by (simp_all add: pre''_def t1_def t2_def)
  have len_all: "off + length (render w) + length (render_list ws') = off + length (render_list ws)"
    using Cons by simp
  show ?thesis
  proof (cases "i \<ge> len")
    case True
    from ok p1 ce True obtain val off1 e x x' x'' where
      c1: "call1 CDecodeTypeAndCreate off = Ok (val, off1)"
      and e: "Elem val = Ok e" and x: "Elem v = Ok x"
      and a: "Append (fst x) (fst e) = Ok x'" and s: "Set x x' = Ok x''"
      and f1: "call1 (CFillSlice (with_elem v x'') len (i + 1)) off1 = Ok (res, off')"
      by (auto simp add: fillSliceLoop_def bind_eq_Ok)
    have c2: "call2 CDecodeTypeAndCreate off = Ok (val, off1)"
      and o1: "off1 = off + length (render w)"
      using good_createD [OF gc wfw q1 q2 off c1] by simp_all
    have lp: "off1 = length pre''" using o1 off by (simp add: pre''_def)
    from good_fillsliceD [OF gs wfs u1 u2 lp f1] o1 len_all p2 ce True c2 e x a s
    show ?thesis by (simp add: fillSliceLoop_def)
  next
    case False
    from ok p1 ce False obtain x e p off1 e' where
      x: "Elem v = Ok x" and e: "Index (fst x) i = Ok e"
      and c1: "call1 (CDecodeType (GPtr (elem_type (fst x)) (Some e))) off = Ok (p, off1)"
      and e': "Elem p = Ok e'"
      and f1: "call1 (CFillSlice (with_elem v (with_index (fst x) i (fst e'))) len (i + 1)) off1
                 = Ok (res, off')"
      by (auto simp add: fillSliceLoop_def bind_eq_Ok)
    have c2: "call2 (CDecodeType (GPtr (elem_type (fst x)) (Some e))) off = Ok (p, off1)"
      and tr: "tracked_bind w (GPtr (elem_type (fst x)) (Some e)) off off1"
      using good_bindD [OF gb wfw q1 q2 off c1] by simp_all
    have o1: "off1 = off + length (render w)"
    proof (rule ccontr)
      assume n: "off1 \<noteq> off + length (render w)"
      with tr obtain kvs where k: "w = WDict kvs" "kvs \<noteq> []" "off1 = off + 3"
        by (auto simp add: tracked_bind_def)
      then obtain k0 w0 kvs0 where kk: "kvs = (k0, w0) # kvs0"
        by (cases kvs) auto
      have "data1 = (pre @ ''d:k'') @ show_nat (length k0) @ CHR '':'' #
                      (k0 @ render w0 @ render_pairs kvs0 @ ''e'' @ t1)"
        using q1 k(1) kk render_dict_nonempty [of k0 w0 kvs0 t1] by simp
      moreover have "off1 = length (pre @ ''d:k'')" using k(3) off by simp
      ultimately show False using stuckD(3) [OF st] f1 by blast
    qed
    have lp: "off1 = length pre''" using o1 off by (simp add: pre''_def)
    from good_fillsliceD [OF gs wfs u1 u2 lp f1] o1 len_all p2 ce False c2 e x e'
    show ?thesis by (simp add: fillSliceLoop_def)
  qed
qed

section \<open>The decoders of dictionaries and lists on two buffers\<close>

lemma read_at:
  assumes "data = pre @ c # rest" and "off = length pre"
  shows "read data off 1 = Ok ([c], off + 1)"
  using assms read_one [of pre c rest] by simp

lemma dictDecoder_rel:
  assumes gc: "good_create call1 call2 data1 data2" and gm: "good_fillmap call1 call2 data1 data2"
    and gd: "good_dict call1 call2 data1 data2"
    and wf: "wf_pairs kvs"
    and d1: "data1 = pre @ render_pairs kvs @ CHR ''e'' # s1"
    and d2: "data2 = pre @ render_pairs kvs @ CHR ''e'' # s2"
    and off: "off = length pre"
    and ok: "dictDecoder call1 L data1 key addr v off = Ok (res, off')"
  shows "dictDecoder call2 L data2 key addr v off = Ok (res, off') \<and> tracked_dict kvs off off'
         \<and> (map_dest v \<longrightarrow> off' = off + length (render_pairs kvs) + 1)"
proof -
  from ok obtain isnil where isnil: "IsNil v = Ok isnil"
    by (auto simp add: dictDecoder_def bind_eq_Ok)
  define mapValue where "mapValue = (if isnil then GMap TString TIface (Some []) else v)"
  have nostruct: "kind_of mapValue \<noteq> KStruct"
    using isnil by (cases v) (auto simp add: mapValue_def)
  show ?thesis
  proof (cases "kind_of mapValue = KPtr \<or> kind_of mapValue = KInterface")
    case True
    have unf: "dictDecoder call L data key addr v off =
      bind (Elem mapValue) (\<lambda>x.
        bind (call (CDictDecoder (snd x) (fst x)) off) (\<lambda>(x', off1). Ok (with_elem v x', off1)))"
      for call :: "'a call \<Rightarrow> nat \<Rightarrow> 'a ret" and data
      using True isnil unfolding dictDecoder_def mapValue_def by (simp add: Let_def)
    from ok obtain x x' where x: "Elem mapValue = Ok x"
      and c1: "call1 (CDictDecoder (snd x) (fst x)) off = Ok (x', off')"
      and r: "res = with_elem v x'"
      by (auto simp add: unf bind_eq_Ok)
    have "map_dest v \<Longrightarrow> map_dest (fst x)"
      using True x isnil by (auto simp add: map_dest_def mapValue_def split: if_splits)
    with good_dictD [OF gd wf d1 d2 off c1] x r show ?thesis
      by (simp add: unf)
  next
    case False
    define inner where "inner call data =
      (case mapValue of
         GMap kt vt m \<Rightarrow>
           if kt = TString \<and> vt = TIface
           then fillMap call data (case m of None \<Rightarrow> [] | Some kvs \<Rightarrow> kvs) off
           else Panic (PRuntime ''interface conversion: interface {} is not map[string]interface {}'')
       | GStruct sname flds \<Rightarrow> fillStruct call L data addr mapValue off
       | _ \<Rightarrow> Ok (mapValue, off))" for call :: "'a call \<Rightarrow> nat \<Rightarrow> 'a ret" and data
    have unf: "dictDecoder call L data key addr v off =
      bind (inner call data) (\<lambda>(mapValue', off1).
        bind (if isnil then Set (v, addr) mapValue' else Ok mapValue') (\<lambda>v'.
        bind (read data off1 1) (\<lambda>(s, off2). Ok (v', off2))))" for call data
      using False isnil unfolding dictDecoder_def inner_def mapValue_def by (simp add: Let_def)
    from ok obtain mv' off1 v' s where
      i1: "inner call1 data1 = Ok (mv', off1)"
      and sv: "(if isnil then Set (v, addr) mv' else Ok mv') = Ok v'"
      and rd: "read data1 off1 1 = Ok (s, off')" and r: "res = v'"
      by (auto simp add: unf bind_eq_Ok)
    have "inner call2 data2 = Ok (mv', off1) \<and> read data2 off1 1 = Ok (s, off')
            \<and> tracked_dict kvs off off'
            \<and> (map_dest v \<longrightarrow> off' = off + length (render_pairs kvs) + 1)"
    proof (cases "kind_of mapValue = KMap")
      case True
      then obtain kt vt m where mv: "mapValue = GMap kt vt m" by (cases mapValue) auto
      with i1 have ty: "kt = TString \<and> vt = TIface"
        and f1: "fillMap call1 data1 (case m of None \<Rightarrow> [] | Some kvs \<Rightarrow> kvs) off = Ok (mv', off1)"
        by (auto simp add: inner_def split: if_splits)
      from fillMap_rel [OF gc gm wf d1 d2 off f1]
      have f2: "fillMap call2 data2 (case m of None \<Rightarrow> [] | Some kvs \<Rightarrow> kvs) off = Ok (mv', off1)"
        and o1: "off1 = off + length (render_pairs kvs)" by simp_all
      have lp: "off1 = length (pre @ render_pairs kvs)" using o1 off by simp
      have "read data1 off1 1 = Ok (''e'', off1 + 1)" "read data2 off1 1 = Ok (''e'', off1 + 1)"
        using read_at [OF _ lp, of data1 "CHR ''e''" s1] read_at [OF _ lp, of data2 "CHR ''e''" s2]
          d1 d2 by simp_all
      with rd f2 mv ty o1 show ?thesis
        by (simp add: inner_def tracked_dict_def)
    next
      case notmap: False
      with False nostruct have io: "inner call data = Ok (mapValue, off)" for call data
        by (cases mapValue) (simp_all add: inner_def)
      with i1 have m: "mv' = mapValue" "off1 = off" by simp_all
      obtain c cs where cc: "render_pairs kvs @ CHR ''e'' # s1 = c # cs @ s1"
        "render_pairs kvs @ CHR ''e'' # s2 = c # cs @ s2" "kvs = [] \<longrightarrow> cs = []"
        by (cases kvs) auto
      have "read data1 off 1 = Ok ([c], off + 1)" "read data2 off 1 = Ok ([c], off + 1)"
        using read_at [OF _ off, of data1 c "cs @ s1"] read_at [OF _ off, of data2 c "cs @ s2"]
          d1 d2 cc by simp_all
      moreover have "\<not> map_dest v"
        using notmap False isnil by (cases v) (auto simp add: map_dest_def mapValue_def split: if_splits)
      ultimately show ?thesis
        using rd m io by (cases "kvs = []") (auto simp add: tracked_dict_def)
    qed
    with sv r show ?thesis by (simp add: unf)
  qed
qed

lemma fillStructSlice_never: "fillStructSlice call data v off \<noteq> Ok r"
  by (simp add: fillStructSlice_def bind_eq_Ok)

lemma listDecoder_rel:
  assumes gb: "good_bind call1 call2 data1 data2" and gc: "good_create call1 call2 data1 data2"
    and gs: "good_fillslice call1 call2 data1 data2" and st: "stuck call1 data1"
    and wf: "wf_list ws"
    and d1: "data1 = pre @ render_list ws @ CHR ''e'' # s1"
    and d2: "data2 = pre @ render_list ws @ CHR ''e'' # s2"
    and off: "off = length pre"
    and ok: "listDecoder call1 data1 key v off = Ok (res, off')"
  shows "listDecoder call2 data2 key v off = Ok (res, off') \<and>
         (off' = off + length (render_list ws) + 1 \<or> (kind_of v \<noteq> KPtr \<and> off' = off))"
proof -
  from ok obtain valid where valid: "isValidList v = Ok valid"
    by (auto simp add: listDecoder_def bind_eq_Ok)
  show ?thesis
  proof (cases valid)
    case False
    with valid have "kind_of v \<noteq> KPtr"
      by (auto simp add: isValidList_def split: if_splits)
    with ok valid False show ?thesis by (simp add: listDecoder_def)
  next
    case True
    from ok valid True obtain x isnil where x: "Elem v = Ok x" and isnil: "IsNil (fst x) = Ok isnil"
      by (auto simp add: listDecoder_def bind_eq_Ok)
    define sliceValue where
      "sliceValue = (if isnil then GPtr (TSlice TIface) (Some (GSlice TIface (Some []))) else v)"
    define tail where "tail data sv' off1 =
      (let v1 = (if isnil then v else sv')
       in bind (Elem v1) (\<lambda>x1.
          bind (IsNil (fst x1)) (\<lambda>isnil1.
          bind (if isnil1 then bind (Set x1 sv') (\<lambda>x2. Ok (with_elem v1 x2)) else Ok v1) (\<lambda>v2.
          bind (read data off1 1) (\<lambda>(s, off2). Ok (v2, off2))))))" for data sv' off1
    have unf: "listDecoder call data key v off =
      bind (Elem sliceValue) (\<lambda>sx.
        bind (if kind_of (fst sx) = KStruct then fillStructSlice call data sliceValue off
              else fillSlice call data sliceValue off) (\<lambda>(sv', off1). tail data sv' off1))"
      for call :: "'a call \<Rightarrow> nat \<Rightarrow> 'a ret" and data
      using valid True x isnil unfolding listDecoder_def sliceValue_def tail_def
      by (simp add: Let_def)
    from ok obtain sx sv' off1 where sx: "Elem sliceValue = Ok sx"
      and i1: "(if kind_of (fst sx) = KStruct then fillStructSlice call1 data1 sliceValue off
                else fillSlice call1 data1 sliceValue off) = Ok (sv', off1)"
      and t1: "tail data1 sv' off1 = Ok (res, off')"
      by (auto simp add: unf bind_eq_Ok)
    from i1 fillStructSlice_never [of call1 data1 sliceValue off "(sv', off1)"]
    have ns: "kind_of (fst sx) \<noteq> KStruct"
      and f1: "fillSlice call1 data1 sliceValue off = Ok (sv', off1)"
      by (auto split: if_splits)
    from f1 sx obtain len where len: "Len (fst sx) = Ok len"
      and l1: "fillSliceLoop call1 data1 sliceValue len 0 off = Ok (sv', off1)"
      by (auto simp add: fillSlice_def bind_eq_Ok)
    from fillSliceLoop_rel [OF gb gc gs st wf d1 d2 off l1]
    have l2: "fillSliceLoop call2 data2 sliceValue len 0 off = Ok (sv', off1)"
      and o1: "off1 = off + length (render_list ws)" by simp_all
    have f2: "fillSlice call2 data2 sliceValue off = Ok (sv', off1)"
      using sx len l2 by (simp add: fillSlice_def)
    have lp: "off1 = length (pre @ render_list ws)" using o1 off by simp
    have rd: "read data1 off1 1 = Ok (''e'', off1 + 1)" "read data2 off1 1 = Ok (''e'', off1 + 1)"
      using read_at [OF _ lp, of data1 "CHR ''e''" s1] read_at [OF _ lp, of data2 "CHR ''e''" s2]
        d1 d2 by simp_all
    from t1 rd have t2: "tail data2 sv' off1 = Ok (res, off')" and o: "off' = off1 + 1"
      by (auto simp add: tail_def Let_def bind_eq_Ok)
    from sx ns f2 t2 o o1 show ?thesis by (simp add: unf)
  qed
qed

section \<open>\<open>decodeType\<close> and \<open>decodeTypeAndCreate\<close> on two buffers\<close>

lemma sign_digits:
  assumes "digits ds"
  shows "CHR ''e'' \<notin> set ((if neg then ''-'' else []) @ ds)"
    and "(if neg then ''-'' else []) @ ds \<noteq> []"
  using assms digits_not_in [OF assms, of "CHR ''e''"] by (auto simp add: digits_def)

lemma float_digits:
  assumes "digits a" and "digits b"
  shows "CHR ''z'' \<notin> set (a @ ''.'' @ b)" and "a @ ''.'' @ b \<noteq> []"
  using digits_not_in [OF assms(1), of "CHR ''z''"] digits_not_in [OF assms(2), of "CHR ''z''"]
  by auto

text \<open>
  The scalars: the decoder chosen for the tag is a function \<open>E\<close> of the token, and
  when it succeeds it stops at the end of the value.
\<close>

lemma scalar_token:
  assumes "wf w" and "\<forall>kvs. w \<noteq> WDict kvs" and "\<forall>ws. w \<noteq> WList ws"
  shows "\<exists>E. (\<forall>s call. decodeType call L ((pre @ tag w @ '':'') @ payload w @ s) v (length pre) = E)
            \<and> (\<forall>res off'. E = Ok (res, off') \<longrightarrow> off' = length pre + length (render w))"
proof -
  define p2 where "p2 = pre @ tag w @ '':''"
  define o2 where "o2 = length pre + length (tag w) + 1"
  have l2: "o2 = length p2" by (simp add: o2_def p2_def)
  have dt: "decodeType call L (p2 @ payload w @ s) v (length pre) =
     (let t = hd (tag w)
      in if t = CHR ''n'' then nilDecoder (p2 @ payload w @ s) (tag w) v o2
         else if t = CHR ''b'' then boolDecoder (p2 @ payload w @ s) (tag w) v o2
         else if t = CHR ''i'' then intDecoder (p2 @ payload w @ s) (tag w) v o2
         else if t = CHR ''f'' then floatDecoder L (p2 @ payload w @ s) (tag w) v o2
         else if t = CHR ''s'' then stringDecoder (p2 @ payload w @ s) (tag w) v o2
         else if t = CHR ''u'' then unicodeDecoder (p2 @ payload w @ s) (tag w) v o2
         else if t = CHR ''d'' then dictDecoder call L (p2 @ payload w @ s) (tag w) False v o2
         else if t = CHR ''l'' then listDecoder call (p2 @ payload w @ s) (tag w) v o2
         else if t = CHR ''c'' then customDecoder (p2 @ payload w @ s) (tag w) v o2
         else invalidType (p2 @ payload w @ s) o2)" for s call
    by (rule decodeType_at [OF tag_no_colon tag_nonempty refl _ o2_def]) (simp add: p2_def)
  have len: "length (render w) = length (tag w) + 1 + length (payload w)"
    by (simp add: render_def)
  show ?thesis
  proof (cases w)
    case WAbsent
    have "decodeType call L (p2 @ payload w @ s) v (length pre) = Ok (v, o2 + 1)" for s call
      unfolding dt using nilDecoder_shape [OF l2, of "CHR ''e''" s "tag w" v]
      by (simp add: WAbsent)
    then show ?thesis
      unfolding p2_def [symmetric] using len by (auto simp add: o2_def WAbsent)
  next
    case (WBool b)
    define c where "c = (if b then CHR ''1'' else CHR ''0'')"
    have "decodeType call L (p2 @ payload w @ s) v (length pre) =
            bind (Elem v) (\<lambda>x. bind (SetBool x (c \<noteq> CHR ''0'')) (\<lambda>x'. Ok (with_elem v x', o2 + 1)))"
      for s call
      unfolding dt using boolDecoder_shape [OF l2, of c s "tag w" v]
      by (cases b) (simp_all add: WBool c_def)
    then show ?thesis
      unfolding p2_def [symmetric] using len by (auto simp add: o2_def WBool bind_eq_Ok)
  next
    case (WInt neg ds)
    define str where "str = (if neg then ''-'' else []) @ ds"
    have d: "digits ds" using assms(1) WInt by simp
    have pw: "payload w = str @ ''e''" by (simp add: WInt str_def)
    have tg: "tag w = ''i''" by (simp add: WInt)
    have sd: "CHR ''e'' \<notin> set str" "str \<noteq> []"
      using sign_digits [OF d, of neg] by (simp_all add: str_def)
    have "decodeType call L (p2 @ payload w @ s) v (length pre) =
            bind (Elem v) (\<lambda>x. bind (parseInt str) (\<lambda>i. bind (SetInt x i)
              (\<lambda>x'. Ok (with_elem v x', o2 + length str + 1))))" for s call
      unfolding dt using intDecoder_shape [OF sd l2, of s "tag w" v] tg
      by (simp add: pw)
    then show ?thesis
      unfolding p2_def [symmetric] using len pw by (auto simp add: o2_def bind_eq_Ok)
  next
    case (WFloat a b)
    define str where "str = a @ ''.'' @ b"
    have d: "digits a" "digits b" using assms(1) WFloat by simp_all
    have pw: "payload w = str @ ''z''" by (simp add: WFloat str_def)
    have tg: "tag w = ''f''" by (simp add: WFloat)
    have sd: "CHR ''z'' \<notin> set str" "str \<noteq> []"
      using float_digits [OF d] by (simp_all add: str_def)
    have "decodeType call L (p2 @ payload w @ s) v (length pre) =
            (case parseFloat L str of
               None \<Rightarrow> Panic (PError (NumError ''ParseFloat'' str))
             | Some f \<Rightarrow> bind (Elem v) (\<lambda>x. bind (SetFloat x f)
                 (\<lambda>x'. Ok (with_elem v x', o2 + length str + 1))))" for s call
      unfolding dt using floatDecoder_shape [OF sd l2, of L s "tag w" v] tg
      by (simp add: pw)
    then show ?thesis
      unfolding p2_def [symmetric] using len pw
      by (auto simp add: o2_def bind_eq_Ok split: option.splits)
  next
    case (WText t)
    have k: "drop 1 (tag w) = show_nat (length t)" by (simp add: WText)
    have "decodeType call L (p2 @ payload w @ s) v (length pre) =
            bind (parseInt (show_nat (length t))) (\<lambda>len. bind (Elem v) (\<lambda>x. bind (SetString x t)
              (\<lambda>x'. Ok (with_elem v x', o2 + length t))))" for s call
      unfolding dt using stringDecoder_shape [OF k l2, of s v]
      by (simp add: WText)
    then show ?thesis
      unfolding p2_def [symmetric] using len by (auto simp add: o2_def WText bind_eq_Ok)
  next
    case (WUdata p)
    have k: "drop 1 (tag w) = show_nat (length p)" by (simp add: WUdata)
    have "decodeType call L (p2 @ payload w @ s) v (length pre) =
            bind (parseInt (show_nat (length p))) (\<lambda>len.
              (case b64decode p of
                 None \<Rightarrow> Panic (PError CorruptInputError)
               | Some bytes \<Rightarrow> bind (Elem v) (\<lambda>x. bind (SetString x bytes)
                   (\<lambda>x'. Ok (with_elem v x', o2 + length p)))))" for s call
      unfolding dt using unicodeDecoder_shape [OF k l2, of s v]
      by (simp add: WUdata)
    then show ?thesis
      unfolding p2_def [symmetric] using len
      by (auto simp add: o2_def WUdata bind_eq_Ok split: option.splits)
  next
    case (WDict kvs)
    with assms(2) show ?thesis by simp
  next
    case (WList ws)
    with assms(3) show ?thesis by simp
  qed
qed

lemma scalar_token_create:
  assumes "wf w" and "\<forall>kvs. w \<noteq> WDict kvs" and "\<forall>ws. w \<noteq> WList ws"
  shows "\<exists>E. (\<forall>s call. decodeTypeAndCreate call L ((pre @ tag w @ '':'') @ payload w @ s) (length pre) = E)
            \<and> (\<forall>res off'. E = Ok (res, off') \<longrightarrow> off' = length pre + length (render w))"
proof -
  define p2 where "p2 = pre @ tag w @ '':''"
  define o2 where "o2 = length pre + length (tag w) + 1"
  have l2: "o2 = length p2" by (simp add: o2_def p2_def)
  have dt: "decodeTypeAndCreate call L (p2 @ payload w @ s) (length pre) =
     (let t = hd (tag w)
      in if t = CHR ''n'' then nilDecoder (p2 @ payload w @ s) (tag w) GNil o2
         else if t = CHR ''b'' then
           boolDecoder (p2 @ payload w @ s) (tag w) (GPtr TBool (Some (GBool False))) o2
         else if t = CHR ''i'' then
           intDecoder (p2 @ payload w @ s) (tag w) (GPtr TInt (Some (GInt 0))) o2
         else if t = CHR ''f'' then
           floatDecoder L (p2 @ payload w @ s) (tag w) (GPtr TFloat (Some (GFloat (fzero L)))) o2
         else if t = CHR ''s'' then
           stringDecoder (p2 @ payload w @ s) (tag w) (GPtr TString (Some (GString []))) o2
         else if t = CHR ''u'' then
           unicodeDecoder (p2 @ payload w @ s) (tag w) (GPtr TString (Some (GString []))) o2
         else if t = CHR ''d'' then
           dictDecoder call L (p2 @ payload w @ s) (tag w) False
             (GPtr (TMap TString TIface) (Some (GMap TString TIface (Some [])))) o2
         else if t = CHR ''l'' then
           listDecoder call (p2 @ payload w @ s) (tag w)
             (GPtr (TSlice TIface) (Some (GSlice TIface (Some [])))) o2
         else if t = CHR ''c'' then Panic (PError (DecodeError ''custom type must be top-level''))
         else invalidType (p2 @ payload w @ s) o2)" for s call
    by (rule decodeTypeAndCreate_at [OF tag_no_colon tag_nonempty refl _ o2_def]) (simp add: p2_def)
  have len: "length (render w) = length (tag w) + 1 + length (payload w)"
    by (simp add: render_def)
  show ?thesis
  proof (cases w)
    case WAbsent
    have "decodeTypeAndCreate call L (p2 @ payload w @ s) (length pre) = Ok (GNil, o2 + 1)" for s call
      unfolding dt using nilDecoder_shape [OF l2, of "CHR ''e''" s "tag w" "GNil"]
      by (simp add: WAbsent)
    then show ?thesis
      unfolding p2_def [symmetric] using len by (auto simp add: o2_def WAbsent)
  next
    case (WBool b)
    define c where "c = (if b then CHR ''1'' else CHR ''0'')"
    have "decodeTypeAndCreate call L (p2 @ payload w @ s) (length pre) =
            bind (Elem (GPtr TBool (Some (GBool False)))) (\<lambda>x. bind (SetBool x (c \<noteq> CHR ''0'')) (\<lambda>x'. Ok (with_elem (GPtr TBool (Some (GBool False))) x', o2 + 1)))"
      for s call
      unfolding dt using boolDecoder_shape [OF l2, of c s "tag w" "GPtr TBool (Some (GBool False))"]
      by (cases b) (simp_all add: WBool c_def)
    then show ?thesis
      unfolding p2_def [symmetric] using len by (auto simp add: o2_def WBool bind_eq_Ok)
  next
    case (WInt neg ds)
    define str where "str = (if neg then ''-'' else []) @ ds"
    have d: "digits ds" using assms(1) WInt by simp
    have pw: "payload w = str @ ''e''" by (simp add: WInt str_def)
    have tg: "tag w = ''i''" by (simp add: WInt)
    have sd: "CHR ''e'' \<notin> set str" "str \<noteq> []"
      using sign_digits [OF d, of neg] by (simp_all add: str_def)
    have "decodeTypeAndCreate call L (p2 @ payload w @ s) (length pre) =
            bind (Elem (GPtr TInt (Some (GInt 0)))) (\<lambda>x. bind (parseInt str) (\<lambda>i. bind (SetInt x i)
              (\<lambda>x'. Ok (with_elem (GPtr TInt (Some (GInt 0))) x', o2 + length str + 1))))" for s call
      unfolding dt using intDecoder_shape [OF sd l2, of s "tag w" "GPtr TInt (Some (GInt 0))"] tg
      by (simp add: pw)
    then show ?thesis
      unfolding p2_def [symmetric] using len pw by (auto simp add: o2_def bind_eq_Ok)
  next
    case (WFloat a b)
    define str where "str = a @ ''.'' @ b"
    have d: "digits a" "digits b" using assms(1) WFloat by simp_all
    have pw: "payload w = str @ ''z''" by (simp add: WFloat str_def)
    have tg: "tag w = ''f''" by (simp add: WFloat)
    have sd: "CHR ''z'' \<notin> set str" "str \<noteq> []"
      using float_digits [OF d] by (simp_all add: str_def)
    have "decodeTypeAndCreate call L (p2 @ payload w @ s) (length pre) =
            (case parseFloat L str of
               None \<Rightarrow> Panic (PError (NumError ''ParseFloat'' str))
             | Some f \<Rightarrow> bind (Elem (GPtr TFloat (Some (GFloat (fzero L))))) (\<lambda>x. bind (SetFloat x f)
                 (\<lambda>x'. Ok (with_elem (GPtr TFloat (Some (GFloat (fzero L)))) x', o2 + length str + 1))))" for s call
      unfolding dt using floatDecoder_shape [OF sd l2, of L s "tag w" "GPtr TFloat (Some (GFloat (fzero L)))"] tg
      by (simp add: pw)
    then show ?thesis
      unfolding p2_def [symmetric] using len pw
      by (auto simp add: o2_def bind_eq_Ok split: option.splits)
  next
    case (WText t)
    have k: "drop 1 (tag w) = show_nat (length t)" by (simp add: WText)
    have "decodeTypeAndCreate call L (p2 @ payload w @ s) (length pre) =
            bind (parseInt (show_nat (length t))) (\<lambda>len. bind (Elem (GPtr TString (Some (GString [])))) (\<lambda>x. bind (SetString x t)
              (\<lambda>x'. Ok (with_elem (GPtr TString (Some (GString []))) x', o2 + length t))))" for s call
      unfolding dt using stringDecoder_shape [OF k l2, of s "GPtr TString (Some (GString []))"]
      by (simp add: WText)
    then show ?thesis
      unfolding p2_def [symmetric] using len by (auto simp add: o2_def WText bind_eq_Ok)
  next
    case (WUdata p)
    have k: "drop 1 (tag w) = show_nat (length p)" by (simp add: WUdata)
    have "decodeTypeAndCreate call L (p2 @ payload w @ s) (length pre) =
            bind (parseInt (show_nat (length p))) (\<lambda>len.
              (case b64decode p of
                 None \<Rightarrow> Panic (PError CorruptInputError)
               | Some bytes \<Rightarrow> bind (Elem (GPtr TString (Some (GString [])))) (\<lambda>x. bind (SetString x bytes)
                   (\<lambda>x'. Ok (with_elem (GPtr TString (Some (GString []))) x', o2 + length p)))))" for s call
      unfolding dt using unicodeDecoder_shape [OF k l2, of s "GPtr TString (Some (GString []))"]
      by (simp add: WUdata)
    then show ?thesis
      unfolding p2_def [symmetric] using len
      by (auto simp add: o2_def WUdata bind_eq_Ok split: option.splits)
  next
    case (WDict kvs)
    with assms(2) show ?thesis by simp
  next
    case (WList ws)
    with assms(3) show ?thesis by simp
  qed
qed

lemma decodeType_rel:
  assumes g: "good call1 call2 data1 data2" and wf: "wf w"
    and d1: "data1 = pre @ render w @ s1" and d2: "data2 = pre @ render w @ s2"
    and off: "off = length pre"
    and ok: "decodeType call1 L data1 v off = Ok (res, off')"
  shows "decodeType call2 L data2 v off = Ok (res, off') \<and> tracked_bind w v off off'"
proof -
  from g have gb: "good_bind call1 call2 data1 data2" and gc: "good_create call1 call2 data1 data2"
    and gd: "good_dict call1 call2 data1 data2" and gm: "good_fillmap call1 call2 data1 data2"
    and gs: "good_fillslice call1 call2 data1 data2" and st: "stuck call1 data1"
    by (simp_all add: good_def)
  define p2 where "p2 = pre @ tag w @ '':''"
  define o2 where "o2 = off + length (tag w) + 1"
  have l2: "o2 = length p2" by (simp add: o2_def p2_def off)
  have e1: "data1 = p2 @ payload w @ s1" and e2: "data2 = p2 @ payload w @ s2"
    using d1 d2 by (simp_all add: render_def p2_def)
  have r1: "data1 = pre @ tag w @ CHR '':'' # (payload w @ s1)"
    and r2: "data2 = pre @ tag w @ CHR '':'' # (payload w @ s2)"
    using d1 d2 by (simp_all add: render_def)
  note dt1 = decodeType_at [OF tag_no_colon tag_nonempty off r1 o2_def, of call1 L v]
  note dt2 = decodeType_at [OF tag_no_colon tag_nonempty off r2 o2_def, of call2 L v]
  show ?thesis
  proof (cases w)
    case (WDict kvs)
    have tg: "tag w = ''d''" and pw: "payload w = render_pairs kvs @ ''e''" by (simp_all add: WDict)
    have wk: "wf_pairs kvs" using wf WDict by simp
    have f1: "data1 = p2 @ render_pairs kvs @ CHR ''e'' # s1"
      and f2: "data2 = p2 @ render_pairs kvs @ CHR ''e'' # s2"
      using e1 e2 pw by simp_all
    from ok have "dictDecoder call1 L data1 (tag w) False v o2 = Ok (res, off')"
      by (simp add: dt1 tg)
    from dictDecoder_rel [OF gc gm gd wk f1 f2 l2 this]
    have "dictDecoder call2 L data2 (tag w) False v o2 = Ok (res, off')"
      and "tracked_dict kvs o2 off'" by simp_all
    then show ?thesis
      using tg pw by (auto simp add: dt2 tracked_dict_def tracked_bind_def o2_def render_def WDict)
  next
    case (WList ws)
    have tg: "tag w = ''l''" and pw: "payload w = render_list ws @ ''e''" by (simp_all add: WList)
    have wk: "wf_list ws" using wf WList by simp
    have f1: "data1 = p2 @ render_list ws @ CHR ''e'' # s1"
      and f2: "data2 = p2 @ render_list ws @ CHR ''e'' # s2"
      using e1 e2 pw by simp_all
    from ok have "listDecoder call1 data1 (tag w) v o2 = Ok (res, off')"
      by (simp add: dt1 tg)
    from listDecoder_rel [OF gb gc gs st wk f1 f2 l2 this]
    have "listDecoder call2 data2 (tag w) v o2 = Ok (res, off')"
      and "off' = o2 + length (render_list ws) + 1 \<or> (kind_of v \<noteq> KPtr \<and> off' = o2)" by simp_all
    then show ?thesis
      using tg pw by (auto simp add: dt2 tracked_bind_def o2_def render_def WList)
  qed (use scalar_token [OF wf, of L pre v] ok e1 e2 off in
        \<open>auto simp add: p2_def tracked_bind_def\<close>)
qed

lemma decodeTypeAndCreate_rel:
  assumes g: "good call1 call2 data1 data2" and wf: "wf w"
    and d1: "data1 = pre @ render w @ s1" and d2: "data2 = pre @ render w @ s2"
    and off: "off = length pre"
    and ok: "decodeTypeAndCreate call1 L data1 off = Ok (res, off')"
  shows "decodeTypeAndCreate call2 L data2 off = Ok (res, off') \<and> off' = off + length (render w)"
proof -
  from g have gb: "good_bind call1 call2 data1 data2" and gc: "good_create call1 call2 data1 data2"
    and gd: "good_dict call1 call2 data1 data2" and gm: "good_fillmap call1 call2 data1 data2"
    and gs: "good_fillslice call1 call2 data1 data2" and st: "stuck call1 data1"
    by (simp_all add: good_def)
  define p2 where "p2 = pre @ tag w @ '':''"
  define o2 where "o2 = off + length (tag w) + 1"
  have l2: "o2 = length p2" by (simp add: o2_def p2_def off)
  have e1: "data1 = p2 @ payload w @ s1" and e2: "data2 = p2 @ payload w @ s2"
    using d1 d2 by (simp_all add: render_def p2_def)
  have r1: "data1 = pre @ tag w @ CHR '':'' # (payload w @ s1)"
    and r2: "data2 = pre @ tag w @ CHR '':'' # (payload w @ s2)"
    using d1 d2 by (simp_all add: render_def)
  note dt1 = decodeTypeAndCreate_at [OF tag_no_colon tag_nonempty off r1 o2_def, of call1 L]
  note dt2 = decodeTypeAndCreate_at [OF tag_no_colon tag_nonempty off r2 o2_def, of call2 L]
  show ?thesis
  proof (cases w)
    case (WDict kvs)
    define v :: "'a gval" where "v = GPtr (TMap TString TIface) (Some (GMap TString TIface (Some [])))"
    have md: "map_dest v" by (simp add: map_dest_def v_def)
    have tg: "tag w = ''d''" and pw: "payload w = render_pairs kvs @ ''e''" by (simp_all add: WDict)
    have wk: "wf_pairs kvs" using wf WDict by simp
    have f1: "data1 = p2 @ render_pairs kvs @ CHR ''e'' # s1"
      and f2: "data2 = p2 @ render_pairs kvs @ CHR ''e'' # s2"
      using e1 e2 pw by simp_all
    from ok have "dictDecoder call1 L data1 (tag w) False v o2 = Ok (res, off')"
      by (simp add: dt1 tg v_def)
    from dictDecoder_rel [OF gc gm gd wk f1 f2 l2 this] md
    have "dictDecoder call2 L data2 (tag w) False v o2 = Ok (res, off')"
      and "off' = o2 + length (render_pairs kvs) + 1" by simp_all
    then show ?thesis
      using tg pw by (simp add: dt2 o2_def render_def v_def)
  next
    case (WList ws)
    define v :: "'a gval" where "v = GPtr (TSlice TIface) (Some (GSlice TIface (Some [])))"
    have kp: "kind_of v = KPtr" by (simp add: v_def)
    have tg: "tag w = ''l''" and pw: "payload w = render_list ws @ ''e''" by (simp_all add: WList)
    have wk: "wf_list ws" using wf WList by simp
    have f1: "data1 = p2 @ render_list ws @ CHR ''e'' # s1"
      and f2: "data2 = p2 @ render_list ws @ CHR ''e'' # s2"
      using e1 e2 pw by simp_all
    from ok have "listDecoder call1 data1 (tag w) v o2 = Ok (res, off')"
      by (simp add: dt1 tg v_def)
    from listDecoder_rel [OF gb gc gs st wk f1 f2 l2 this] kp
    have "listDecoder call2 data2 (tag w) v o2 = Ok (res, off')"
      and "off' = o2 + length (render_list ws) + 1" by simp_all
    then show ?thesis
      using tg pw by (simp add: dt2 o2_def render_def v_def)
  qed (use scalar_token_create [OF wf, of L pre] ok e1 e2 off in \<open>auto simp add: p2_def\<close>)
qed

section \<open>Trailing bytes\<close>

lemma hd_show_nat_digit: "\<exists>d<10. hd (show_nat m) = digit_char d"
proof -
  have "hd (show_nat m) \<in> set (show_nat m)"
    using show_nat_nonempty [of m] by simp
  then show ?thesis by (rule show_nat_digits)
qed

lemma hd_show_nat_no_tag:
  "hd (show_nat m) \<notin> {CHR ''n'', CHR ''b'', CHR ''i'', CHR ''f'', CHR ''s'', CHR ''u'',
      CHR ''d'', CHR ''l'', CHR ''c'', CHR ''e''}"
proof -
  obtain d where d: "d < 10" "hd (show_nat m) = digit_char d"
    using hd_show_nat_digit [of m] by auto
  have "digit_char d \<noteq> c" if "57 < (of_char c :: nat)" for c
    using digit_char_neq [OF d(1), of c] that by simp
  then show ?thesis unfolding d(2) by auto
qed

lemma invalidType_never: "invalidType data off \<noteq> Ok r"
  by (simp add: invalidType_def bind_eq_Ok)

lemma decodeType_stuck:
  assumes "data = pre @ show_nat m @ CHR '':'' # s" and "off = length pre"
  shows "decodeType call L data v off \<noteq> Ok r"
proof -
  have nc: "CHR '':'' \<notin> set (show_nat m)" by (rule show_nat_not_in) simp
  note dt = decodeType_at [OF nc show_nat_nonempty assms(2) assms(1) refl]
  show ?thesis
    using hd_show_nat_no_tag [of m] invalidType_never by (simp add: dt Let_def)
qed

lemma decodeTypeAndCreate_stuck:
  assumes "data = pre @ show_nat m @ CHR '':'' # s" and "off = length pre"
  shows "decodeTypeAndCreate call L data off \<noteq> Ok r"
proof -
  have nc: "CHR '':'' \<notin> set (show_nat m)" by (rule show_nat_not_in) simp
  note dt = decodeTypeAndCreate_at [OF nc show_nat_nonempty assms(2) assms(1) refl]
  show ?thesis
    using hd_show_nat_no_tag [of m] invalidType_never by (simp add: dt Let_def)
qed

lemma fillSliceLoop_stuck:
  assumes st: "stuck call data" and d: "data = pre @ show_nat m @ CHR '':'' # s"
    and off: "off = length pre"
  shows "fillSliceLoop call data v len i off \<noteq> Ok r"
proof -
  obtain c cs where sn: "show_nat m = c # cs"
    using show_nat_nonempty [of m] by (cases "show_nat m") auto
  have ce: "c \<noteq> CHR ''e''" using hd_show_nat_no_tag [of m] sn by simp
  have p: "peek data off = Ok c"
    using peek_at [of pre c "cs @ CHR '':'' # s"] d off sn by simp
  show ?thesis
    using p ce stuckD(1,2) [OF st d off]
    by (auto simp add: fillSliceLoop_def bind_eq_Ok)
qed

lemma stuck_exec: "stuck (exec n L data) data"
proof (induction n)
  case 0
  show ?case by (simp add: stuck_def)
next
  case (Suc n)
  show ?case
    unfolding stuck_def
  proof (intro allI impI)
    fix pre m s v len i r
    assume d: "data = pre @ show_nat m @ CHR '':'' # s"
    show "exec (Suc n) L data CDecodeTypeAndCreate (length pre) \<noteq> Ok r \<and>
          exec (Suc n) L data (CDecodeType v) (length pre) \<noteq> Ok r \<and>
          exec (Suc n) L data (CFillSlice v len i) (length pre) \<noteq> Ok r"
      using decodeTypeAndCreate_stuck [OF d refl, of "exec n L data" L r]
        decodeType_stuck [OF d refl, of "exec n L data" L v r]
        fillSliceLoop_stuck [OF Suc d refl, of v len i r]
      by simp
  qed
qed

lemma good_exec: "good (exec n L data1) (exec n L data2) data1 data2"
proof (induction n)
  case 0
  show ?case
    by (simp add: good_def good_bind_def good_create_def good_dict_def good_fillmap_def
        good_fillslice_def stuck_def)
next
  case (Suc n)
  from Suc have gb: "good_bind (exec n L data1) (exec n L data2) data1 data2"
    and gc: "good_create (exec n L data1) (exec n L data2) data1 data2"
    and gd: "good_dict (exec n L data1) (exec n L data2) data1 data2"
    and gm: "good_fillmap (exec n L data1) (exec n L data2) data1 data2"
    and gs: "good_fillslice (exec n L data1) (exec n L data2) data1 data2"
    and st: "stuck (exec n L data1) data1"
    by (simp_all add: good_def)
  have 1: "good_bind (exec (Suc n) L data1) (exec (Suc n) L data2) data1 data2"
    unfolding good_bind_def using decodeType_rel [OF Suc] by simp
  have 2: "good_create (exec (Suc n) L data1) (exec (Suc n) L data2) data1 data2"
    unfolding good_create_def using decodeTypeAndCreate_rel [OF Suc] by simp
  have 3: "good_dict (exec (Suc n) L data1) (exec (Suc n) L data2) data1 data2"
    unfolding good_dict_def using dictDecoder_rel [OF gc gm gd] by simp
  have 4: "good_fillmap (exec (Suc n) L data1) (exec (Suc n) L data2) data1 data2"
    unfolding good_fillmap_def using fillMap_rel [OF gc gm] by simp
  have 5: "good_fillslice (exec (Suc n) L data1) (exec (Suc n) L data2) data1 data2"
    unfolding good_fillslice_def using fillSliceLoop_rel [OF gb gc gs st] by simp
  from 1 2 3 4 5 stuck_exec [of "Suc n" L data1] show ?case
    by (simp add: good_def del: exec.simps)
qed

text \<open>
  A number of twenty digits is not in the range of \<^verbatim>\<open>strconv.ParseInt\<close>, and
  \<open>parseInt\<close> panics with its error: no destination receives it.
\<close>

lemma ParseInt0_twenty_nines: "ParseInt0 ''99999999999999999999'' = None"
  by code_simp

lemma Decode_int_out_of_range:
  "Decode n L (''ut:i:99999999999999999999e'' @ rest) v \<noteq> Returned v'"
proof -
  define ds where "ds = ''99999999999999999999''"
  define data where "data = ''ut:'' @ ''i'' @ CHR '':'' # ds @ CHR ''e'' # rest"
  have data: "''ut:i:99999999999999999999e'' @ rest = data" by (simp add: data_def ds_def)
  have pi: "parseInt ds = Panic (PError (NumError ''ParseInt'' ds))"
    by (simp add: parseInt_def ds_def ParseInt0_twenty_nines)
  have ne: "CHR ''e'' \<notin> set ds" "ds \<noteq> []" by (simp_all add: ds_def)
  have l5: "(5::nat) = length ''ut:i:''" by simp
  have id: "intDecoder data key w 5 \<noteq> Ok r" for key w r
    using intDecoder_shape [OF ne l5, of rest key w] pi
    by (auto simp add: data_def bind_eq_Ok)
  have l3: "(3::nat) = length ''ut:''" by simp
  have nc: "CHR '':'' \<notin> set ''i''" "''i'' \<noteq> []" by simp_all
  have dt: "decodeType call L data w 3 = intDecoder data ''i'' w 5" for call w
    using decodeType_at [OF nc l3 data_def, of 5 call L w] by simp
  have dc: "decodeTypeAndCreate call L data 3 = intDecoder data ''i'' (GPtr TInt (Some (GInt 0))) 5" for call
    using decodeTypeAndCreate_at [OF nc l3 data_def, of 5 call L] by simp
  have m: "readAndMatch data 0 3 ''ut:'' = (True, 3)"
    by (simp add: readAndMatch_def data_def)
  have ex: "exec n L data (CDecodeType w) 3 \<noteq> Ok r" for w r
    using dt id by (cases n) simp_all
  have ec: "exec n L data CDecodeTypeAndCreate 3 \<noteq> Ok r" for r
    using dc id by (cases n) simp_all
  have "Decoder_Decode n L data v \<noteq> Ok v'"
    using ex ec by (auto simp add: Decoder_Decode_def m bind_eq_Ok split: if_splits)
  then show ?thesis unfolding Decode_def data by simp
qed

text \<open>
  Claim C10: on a buffer made of the prefix \<open>ut:\<close>, one complete well-formed value
  and then any bytes, \<open>Decode\<close> succeeds and its result is that of decoding the
  buffer without the trailing bytes. The value \<open>i:99999999999999999999e\<close> is
  well-formed, and \<open>Decode\<close> does not succeed on it, with or without trailing bytes,
  whatever the destination: into a \<^verbatim>\<open>*int\<close> it returns the error of
  \<^verbatim>\<open>strconv.ParseInt\<close>.
\<close>

theorem well_formed_value_not_accepted:
  "wf (WInt False ''99999999999999999999'') \<and>
   Decode 1 halves (''ut:'' @ render (WInt False ''99999999999999999999'') @ ''xyz'')
       (GPtr TInt (Some (GInt 0)))
     = Failed (NumError ''ParseInt'' ''99999999999999999999'') \<and>
   (\<forall>n rest v v'.
      Decode n halves (''ut:'' @ render (WInt False ''99999999999999999999'') @ rest) v
        \<noteq> Returned v')"
proof -
  have 1: "wf (WInt False ''99999999999999999999'')" by (simp add: digits_def)
  have 2: "Decode 1 halves (''ut:'' @ render (WInt False ''99999999999999999999'') @ ''xyz'')
       (GPtr TInt (Some (GInt 0)))
     = Failed (NumError ''ParseInt'' ''99999999999999999999'')"
    by code_simp
  have 3: "Decode n halves (''ut:'' @ render (WInt False ''99999999999999999999'') @ rest) v
      \<noteq> Returned v'" for n rest v v'
    using Decode_int_out_of_range [of n halves rest v v'] by (simp add: render_def)
  from 1 2 3 show ?thesis by blast
qed

text \<open>
  Claim C10, amended: on a buffer made of the prefix \<open>ut:\<close>, one complete well-formed
  value and then any bytes, \<open>Decode\<close> succeeds whenever it succeeds on the buffer
  without the trailing bytes (with the same destination), and its result is then the
  result of decoding the buffer without the trailing bytes: it does not look at what
  follows the value.
\<close>

theorem trailing_bytes_ignored:
  assumes "wf w" and "Decode n L (''ut:'' @ render w) v = Returned v'"
  shows "Decode n L (''ut:'' @ render w @ rest) v = Returned v'"
proof -
  define data1 where "data1 = ''ut:'' @ render w @ []"
  define data2 where "data2 = ''ut:'' @ render w @ rest"
  have m1: "readAndMatch data1 0 3 ''ut:'' = (True, 3)"
    and m2: "readAndMatch data2 0 3 ''ut:'' = (True, 3)"
    by (simp_all add: readAndMatch_def data1_def data2_def)
  have l3: "(3::nat) = length ''ut:''" by simp
  from assms(2) have ok: "Decoder_Decode n L data1 v = Ok v'"
    by (simp add: Decode_def data1_def)
  then obtain isnil where isnil: "IsNil v = Ok isnil"
    by (auto simp add: Decoder_Decode_def m1 bind_eq_Ok)
  have ns: "Set (v, False) val \<noteq> Ok r" for val r
    by (simp add: Set_def mustBeAssignable_def)
  from ok isnil ns have bindmode: "\<not> isnil"
    by (auto simp add: Decoder_Decode_def m1 bind_eq_Ok)
  with ok isnil obtain off1 where c1: "exec n L data1 (CDecodeType v) 3 = Ok (v', off1)"
    by (auto simp add: Decoder_Decode_def m1 bind_eq_Ok)
  have gb: "good_bind (exec n L data1) (exec n L data2) data1 data2"
    using good_exec [of n L data1 data2] by (simp add: good_def)
  have "exec n L data2 (CDecodeType v) 3 = Ok (v', off1)"
    by (rule good_bindD(1) [OF gb assms(1) data1_def data2_def l3 c1])
  with isnil bindmode have "Decoder_Decode n L data2 v = Ok v'"
    by (simp add: Decoder_Decode_def m2)
  then show ?thesis by (simp add: Decode_def data2_def)
qed

text \<open>
  An instance with every kind of value: a dictionary with a list of an integer, a text, a
  floating point number, a boolean and a base64 text, and with a boolean, an absent value
  and an empty dictionary, decoded into a \<^verbatim>\<open>map[string]interface{}\<close>; the trailing bytes
  are one more pair and one more \<open>e\<close>.
\<close>

theorem trailing_bytes_ignored_witness:
  "wf (WDict [(''a'', WList [WInt True ''5'', WText ''hi'', WFloat ''1'' ''5'', WBool False, WUdata ''aGk='']),
              (''b'', WBool True), (''c'', WAbsent), (''d'', WDict [])]) \<and>
   ''ut:'' @ render (WDict [(''a'', WList [WInt True ''5'', WText ''hi'', WFloat ''1'' ''5'', WBool False, WUdata ''aGk='']),
              (''b'', WBool True), (''c'', WAbsent), (''d'', WDict [])])
     = ''ut:d:k1:al:i:-5es2:hif:1.5zb:0u4:aGk=ek1:bb:1k1:cn:ek1:dd:ee'' \<and>
   Decode 12 halves (''ut:'' @ render (WDict [(''a'', WList [WInt True ''5'', WText ''hi'', WFloat ''1'' ''5'', WBool False, WUdata ''aGk='']),
              (''b'', WBool True), (''c'', WAbsent), (''d'', WDict [])]))
      (GMap TString TIface (Some []))
     = Returned (GMap TString TIface (Some
         [(GString ''a'', GIface (Some (GSlice TIface (Some
             [GIface (Some (GInt (- 5))), GIface (Some (GString ''hi'')), GIface (Some (GFloat 3)),
              GIface (Some (GBool False)), GIface (Some (GString ''hi''))])))),
          (GString ''b'', GIface (Some (GBool True))),
          (GString ''c'', GIface None),
          (GString ''d'', GIface (Some (GMap TString TIface (Some []))))])) \<and>
   Decode 12 halves (''ut:'' @ render (WDict [(''a'', WList [WInt True ''5'', WText ''hi'', WFloat ''1'' ''5'', WBool False, WUdata ''aGk='']),
              (''b'', WBool True), (''c'', WAbsent), (''d'', WDict [])]) @ ''k1:zi:7ee'')
      (GMap TString TIface (Some []))
     = Returned (GMap TString TIface (Some
         [(GString ''a'', GIface (Some (GSlice TIface (Some
             [GIface (Some (GInt (- 5))), GIface (Some (GString ''hi'')), GIface (Some (GFloat 3)),
              GIface (Some (GBool False)), GIface (Some (GString ''hi''))])))),
          (GString ''b'', GIface (Some (GBool True))),
          (GString ''c'', GIface None),
          (GString ''d'', GIface (Some (GMap TString TIface (Some []))))]))"
proof -
  define w where "w = WDict [(''a'', WList [WInt True ''5'', WText ''hi'', WFloat ''1'' ''5'', WBool False, WUdata ''aGk='']),
              (''b'', WBool True), (''c'', WAbsent), (''d'', WDict [])]"
  have h1: "wf w"
    by (simp add: w_def digits_def)
  have r: "''ut:'' @ render w = ''ut:d:k1:al:i:-5es2:hif:1.5zb:0u4:aGk=ek1:bb:1k1:cn:ek1:dd:ee''"
    unfolding w_def by code_simp
  have h2: "Decode 12 halves (''ut:'' @ render w) (GMap TString TIface (Some []))
     = Returned (GMap TString TIface (Some
         [(GString ''a'', GIface (Some (GSlice TIface (Some
             [GIface (Some (GInt (- 5))), GIface (Some (GString ''hi'')), GIface (Some (GFloat 3)),
              GIface (Some (GBool False)), GIface (Some (GString ''hi''))])))),
          (GString ''b'', GIface (Some (GBool True))),
          (GString ''c'', GIface None),
          (GString ''d'', GIface (Some (GMap TString TIface (Some []))))]))"
    unfolding w_def by code_simp
  show ?thesis
    unfolding w_def [symmetric]
    using h1 r h2 trailing_bytes_ignored [OF h1 h2, of "''k1:zi:7ee''"] by blast
qed

end
